theory Spec2Isabelle
  imports Main
begin

section \<open>Python values, strings and dictionaries\<close>

text \<open>
  A Python \<open>str\<close> is a sequence of Unicode code points, and \<open>len\<close> counts code points.
  A code point is a natural number; a one-character string is a list of length one.
  String literals of the source are written with \<open>lit\<close>.
\<close>

type_synonym codepoint = nat
type_synonym pystr = "codepoint list"

definition lit :: "string \<Rightarrow> pystr" where
  "lit s = map of_char s"

text \<open>The apostrophe, which the messages put around the offending character.\<close>

definition apostrophe :: pystr where
  "apostrophe = [39]"

text \<open>The exceptions that the operations used by the source can raise.\<close>

datatype py_error = IndexError | KeyError | TypeError | ValueError

text \<open>
  The values a caller can pass for \<open>cfi_code\<close>: \<open>None\<close>, booleans, integers, strings
  (plain \<open>str\<close>), lists, and any other object that is not a string. Of such an object only
  the truth test matters: its \<open>__bool__\<close> or \<open>__len__\<close> returns a truth value or raises
  (the truth test of a numpy array with several elements raises \<open>ValueError\<close>).
\<close>

datatype pyval =
  PyNone | PyBool bool | PyInt int | PyStr pystr | PyList "pyval list"
  | PyObject "py_error + bool"

text \<open>Truth value testing, as \<open>not x\<close> performs it: it can raise.\<close>

fun truthy :: "pyval \<Rightarrow> py_error + bool" where
  "truthy PyNone = Inr False"
| "truthy (PyBool b) = Inr b"
| "truthy (PyInt i) = Inr (i \<noteq> 0)"
| "truthy (PyStr s) = Inr (s \<noteq> [])"
| "truthy (PyList xs) = Inr (xs \<noteq> [])"
| "truthy (PyObject t) = t"

text \<open>\<open>isinstance(x, str)\<close>.\<close>

fun isinstance_str :: "pyval \<Rightarrow> bool" where
  "isinstance_str (PyStr s) = True"
| "isinstance_str v = False"

text \<open>
  \<open>str.isalpha\<close>, \<open>str.upper\<close> and \<open>str.lower\<close> follow the Unicode character database
  of the interpreter. On ASCII they are fixed below; beyond ASCII the database is a parameter:
  whether a code point is a letter, its full upper case mapping (which can be several code
  points long), and the lower case of a string that has a code point beyond ASCII (the
  lower case of a code point can depend on its neighbours).
\<close>

record unicode =
  u_isalpha :: "codepoint \<Rightarrow> bool"
  u_upper :: "codepoint \<Rightarrow> pystr"
  u_lower :: "pystr \<Rightarrow> pystr"

text \<open>The full upper case mapping never maps a code point to the empty string.\<close>

definition unicode_ok :: "unicode \<Rightarrow> bool" where
  "unicode_ok U = (\<forall>c. u_upper U c \<noteq> [])"

text \<open>A database with no letters and no case mappings beyond ASCII, for concrete evaluation.\<close>

definition ascii_only :: unicode where
  "ascii_only = \<lparr>u_isalpha = (\<lambda>c. False), u_upper = (\<lambda>c. [c]), u_lower = (\<lambda>s. s)\<rparr>"

definition ascii_isupper :: "codepoint \<Rightarrow> bool" where
  "ascii_isupper c = (65 \<le> c \<and> c \<le> 90)"

definition ascii_islower :: "codepoint \<Rightarrow> bool" where
  "ascii_islower c = (97 \<le> c \<and> c \<le> 122)"

definition char_isalpha :: "unicode \<Rightarrow> codepoint \<Rightarrow> bool" where
  "char_isalpha U c = (if c < 128 then ascii_isupper c \<or> ascii_islower c else u_isalpha U c)"

text \<open>\<open>s.isalpha()\<close>: every character is a letter and there is at least one character.\<close>

definition str_isalpha :: "unicode \<Rightarrow> pystr \<Rightarrow> bool" where
  "str_isalpha U s = (s \<noteq> [] \<and> list_all (char_isalpha U) s)"

definition char_upper :: "unicode \<Rightarrow> codepoint \<Rightarrow> pystr" where
  "char_upper U c = (if c < 128 then [if ascii_islower c then c - 32 else c] else u_upper U c)"

text \<open>\<open>s.upper()\<close> maps each code point on its own and builds a new string.\<close>

definition str_upper :: "unicode \<Rightarrow> pystr \<Rightarrow> pystr" where
  "str_upper U s = concat (map (char_upper U) s)"

text \<open>\<open>s.lower()\<close> builds a new string as well.\<close>

definition str_lower :: "unicode \<Rightarrow> pystr \<Rightarrow> pystr" where
  "str_lower U s =
     (if list_all (\<lambda>c. c < 128) s then map (\<lambda>c. if ascii_isupper c then c + 32 else c) s
      else u_lower U s)"

text \<open>
  \<open>s[i]\<close>: a one-character string; a negative index counts from the end; outside the string
  it raises \<open>IndexError\<close>.
\<close>

definition str_get :: "pystr \<Rightarrow> int \<Rightarrow> py_error + pystr" where
  "str_get s i =
     (if 0 \<le> i \<and> i < int (length s) then Inr [s ! nat i]
      else if i < 0 \<and> - int (length s) \<le> i then Inr [s ! nat (int (length s) + i)]
      else Inl IndexError)"

text \<open>\<open>s[0:2]\<close>.\<close>

definition str_slice02 :: "pystr \<Rightarrow> pystr" where
  "str_slice02 s = take 2 s"

text \<open>\<open>sep.join(xs)\<close>.\<close>

fun join :: "pystr \<Rightarrow> pystr list \<Rightarrow> pystr" where
  "join sep [] = []"
| "join sep [x] = x"
| "join sep (x # y # ys) = x @ sep @ join sep (y # ys)"

text \<open>\<open>str(n)\<close> of an integer, as an f-string formats it.\<close>

fun digits :: "nat \<Rightarrow> pystr" where
  "digits n = (if n < 10 then [48 + n] else digits (n div 10) @ [48 + n mod 10])"

declare digits.simps [simp del]

definition str_int :: "int \<Rightarrow> pystr" where
  "str_int i = (if i < 0 then 45 # digits (nat (- i)) else digits (nat i))"

text \<open>\<open>range(a, b)\<close>.\<close>

definition py_range :: "int \<Rightarrow> int \<Rightarrow> int list" where
  "py_range a b = [a..b - 1]"

text \<open>
  A dictionary keeps its keys in insertion order, which the messages print: an association
  list. \<open>k in d\<close>, \<open>d.keys()\<close>, \<open>d[k]\<close> (raising \<open>KeyError\<close>), \<open>d.get(k, default)\<close>
  and \<open>d[k] = v\<close>.
\<close>

type_synonym ('k, 'v) dict = "('k \<times> 'v) list"

definition dict_has :: "('k, 'v) dict \<Rightarrow> 'k \<Rightarrow> bool" where
  "dict_has d k = (map_of d k \<noteq> None)"

definition dict_keys :: "('k, 'v) dict \<Rightarrow> 'k list" where
  "dict_keys d = map fst d"

definition dict_item :: "('k, 'v) dict \<Rightarrow> 'k \<Rightarrow> py_error + 'v" where
  "dict_item d k = (case map_of d k of None \<Rightarrow> Inl KeyError | Some v \<Rightarrow> Inr v)"

definition dict_get :: "('k, 'v) dict \<Rightarrow> 'k \<Rightarrow> 'v \<Rightarrow> 'v" where
  "dict_get d k dflt = (case map_of d k of None \<Rightarrow> dflt | Some v \<Rightarrow> v)"

fun dict_set :: "('k, 'v) dict \<Rightarrow> 'k \<Rightarrow> 'v \<Rightarrow> ('k, 'v) dict" where
  "dict_set [] k v = [(k, v)]"
| "dict_set ((k', v') # d) k v = (if k' = k then (k, v) # d else (k', v') # dict_set d k v)"

text \<open>
  An operation either raises (\<open>Inl\<close>) or yields a value (\<open>Inr\<close>); \<open>bindE\<close> sequences two
  operations, the exception of the first one ending the computation.
\<close>

definition bindE :: "py_error + 'a \<Rightarrow> ('a \<Rightarrow> py_error + 'b) \<Rightarrow> py_error + 'b" where
  "bindE m f = (case m of Inl e \<Rightarrow> Inl e | Inr x \<Rightarrow> f x)"

text \<open>
  A block of statements either executes \<open>return r\<close> or falls through with the state \<open>s\<close>.
  \<open>for_loop body xs s\<close> is \<open>for x in xs: body\<close> started in state \<open>s\<close>: it stops at the first
  \<open>return\<close> or exception.
\<close>

datatype ('r, 's) flow = Return 'r | Next 's

fun for_loop :: "('i \<Rightarrow> 's \<Rightarrow> py_error + ('r, 's) flow) \<Rightarrow> 'i list \<Rightarrow> 's \<Rightarrow> py_error + ('r, 's) flow" where
  "for_loop body [] s = Inr (Next s)"
| "for_loop body (x # xs) s =
     (case body x s of
        Inl e \<Rightarrow> Inl e
      | Inr (Return r) \<Rightarrow> Inr (Return r)
      | Inr (Next s') \<Rightarrow> for_loop body xs s')"

section \<open>The taxonomy tables of \<open>CFIValidator\<close>\<close>

text \<open>
  \<open>CATEGORIES\<close>, \<open>GROUPS\<close> and \<open>ATTRIBUTES\<close> are the same in \<open>cfi_validator.py\<close> and in
  \<open>cfi_validator_test.py\<close>; \<open>POSITION_DESCRIPTIONS\<close> exists in the latter only. The inner
  dictionaries of \<open>GROUPS\<close> and \<open>ATTRIBUTES\<close> are named after their keys.
\<close>

definition POSITION_DESCRIPTIONS :: "(int, pystr) dict" where
  "POSITION_DESCRIPTIONS = [
     (1, lit ''Category - Primary classification of the financial instrument''),
     (2, lit ''Group - Secondary classification within the category''),
     (3, lit ''Attribute 1 - Specific characteristics related to the instrument type''),
     (4, lit ''Attribute 2 - Additional characteristics/features''),
     (5, lit ''Attribute 3 - Further specification of the instrument''),
     (6, lit ''Attribute 4 - Final specification details'')]"

definition CATEGORIES :: "(pystr, pystr) dict" where
  "CATEGORIES = [
     (lit ''E'', lit ''Equities''),
     (lit ''D'', lit ''Debt instruments''),
     (lit ''R'', lit ''Entitlements (Rights)''),
     (lit ''O'', lit ''Options''),
     (lit ''F'', lit ''Futures''),
     (lit ''S'', lit ''Swaps''),
     (lit ''H'', lit ''Forward rate agreements and forward foreign exchange''),
     (lit ''M'', lit ''Others/Miscellaneous''),
     (lit ''I'', lit ''Spot''),
     (lit ''J'', lit ''Deposits, Credits and Current accounts''),
     (lit ''K'', lit ''Loans''),
     (lit ''L'', lit ''Spot foreign exchange''),
     (lit ''T'', lit ''Referential instruments'')]"

definition GROUPS_E :: "(pystr, pystr) dict" where
  "GROUPS_E = [
     (lit ''S'', lit ''Shares''),
     (lit ''U'', lit ''Units (e.g., Unit trusts/Mutual funds)''),
     (lit ''F'', lit ''Exchange Traded Funds (ETF)''),
     (lit ''L'', lit ''Limited partnership units''),
     (lit ''H'', lit ''Equity-held investment instruments''),
     (lit ''R'', lit ''Real Estate Investment Trusts (REITs)''),
     (lit ''P'', lit ''Protected and guaranteed equities''),
     (lit ''C'', lit ''Cooperative''),
     (lit ''X'', lit ''Other/Miscellaneous equities'')]"

definition GROUPS_D :: "(pystr, pystr) dict" where
  "GROUPS_D = [
     (lit ''B'', lit ''Bonds''),
     (lit ''T'', lit ''Treasury notes/bonds''),
     (lit ''C'', lit ''Convertible bonds''),
     (lit ''Y'', lit ''Money market instruments''),
     (lit ''G'', lit ''Structured instruments (with capital guarantee)''),
     (lit ''F'', lit ''Bonds with warrants attached''),
     (lit ''P'', lit ''Perpetual bonds''),
     (lit ''S'', lit ''Structured instruments (without capital guarantee)''),
     (lit ''I'', lit ''Inflation linked bonds'')]"

definition GROUPS_R :: "(pystr, pystr) dict" where
  "GROUPS_R = [
     (lit ''S'', lit ''Subscription rights''),
     (lit ''D'', lit ''Dividend right certificates''),
     (lit ''P'', lit ''Preference''),
     (lit ''L'', lit ''Loyalty premiums''),
     (lit ''F'', lit ''Founders shares''),
     (lit ''Q'', lit ''Preference shares''),
     (lit ''W'', lit ''Warrants''),
     (lit ''B'', lit ''Redeemable preferred stocks''),
     (lit ''T'', lit ''Miscellaneous entitlements'')]"

definition GROUPS_O :: "(pystr, pystr) dict" where
  "GROUPS_O = [
     (lit ''C'', lit ''Call options''),
     (lit ''P'', lit ''Put options''),
     (lit ''X'', lit ''Options on options''),
     (lit ''W'', lit ''Warrants''),
     (lit ''F'', lit ''Future options''),
     (lit ''S'', lit ''Spread options''),
     (lit ''R'', lit ''Basket options''),
     (lit ''I'', lit ''Index options''),
     (lit ''J'', lit ''Currency options'')]"

definition GROUPS_F :: "(pystr, pystr) dict" where
  "GROUPS_F = [
     (lit ''F'', lit ''Financial futures''),
     (lit ''X'', lit ''Options on futures''),
     (lit ''I'', lit ''Index futures''),
     (lit ''R'', lit ''Interest rate futures''),
     (lit ''E'', lit ''Currency futures''),
     (lit ''C'', lit ''Commodity futures''),
     (lit ''O'', lit ''Other futures''),
     (lit ''W'', lit ''Weather-related futures''),
     (lit ''B'', lit ''Bond futures'')]"

definition GROUPS_S :: "(pystr, pystr) dict" where
  "GROUPS_S = [
     (lit ''I'', lit ''Interest rate''),
     (lit ''F'', lit ''Foreign exchange''),
     (lit ''B'', lit ''Basis''),
     (lit ''X'', lit ''Exchange swaps and cross-currency swaps''),
     (lit ''S'', lit ''Securities''),
     (lit ''W'', lit ''Weather-related swaps''),
     (lit ''R'', lit ''Return swaps''),
     (lit ''K'', lit ''Commodity''),
     (lit ''P'', lit ''Options on swaps (swaptions)'')]"

definition GROUPS_H :: "(pystr, pystr) dict" where
  "GROUPS_H = [
     (lit ''F'', lit ''Forward foreign exchange agreements''),
     (lit ''I'', lit ''Forward rate agreements''),
     (lit ''X'', lit ''Other'')]"

definition GROUPS_M :: "(pystr, pystr) dict" where
  "GROUPS_M = [
     (lit ''C'', lit ''Commodity''),
     (lit ''R'', lit ''Reference rate''),
     (lit ''O'', lit ''Other''),
     (lit ''F'', lit ''Foreign exchange'')]"

definition GROUPS_I :: "(pystr, pystr) dict" where
  "GROUPS_I = [
     (lit ''X'', lit ''Other''),
     (lit ''F'', lit ''Foreign exchange''),
     (lit ''C'', lit ''Commodity''),
     (lit ''E'', lit ''Equity''),
     (lit ''S'', lit ''Securities''),
     (lit ''O'', lit ''Options'')]"

definition GROUPS_J :: "(pystr, pystr) dict" where
  "GROUPS_J = [
     (lit ''D'', lit ''Deposits''),
     (lit ''C'', lit ''Credits''),
     (lit ''N'', lit ''Non-redeemable money market instruments''),
     (lit ''R'', lit ''Redeemable money market instruments''),
     (lit ''S'', lit ''Structured capital guarantee'')]"

definition GROUPS_K :: "(pystr, pystr) dict" where
  "GROUPS_K = [
     (lit ''L'', lit ''Leveraged''),
     (lit ''C'', lit ''Consumer''),
     (lit ''M'', lit ''Mortgage''),
     (lit ''S'', lit ''Syndicated''),
     (lit ''G'', lit ''Government''),
     (lit ''P'', lit ''Private''),
     (lit ''F'', lit ''Federal agency''),
     (lit ''A'', lit ''Agriculture'')]"

definition GROUPS_L :: "(pystr, pystr) dict" where
  "GROUPS_L = [
     (lit ''S'', lit ''Spot'')]"

definition GROUPS_T :: "(pystr, pystr) dict" where
  "GROUPS_T = [
     (lit ''I'', lit ''Interest/Yield rates''),
     (lit ''R'', lit ''Reference rates''),
     (lit ''F'', lit ''Foreign exchange rates''),
     (lit ''U'', lit ''Economic indicators''),
     (lit ''V'', lit ''Inflation rates''),
     (lit ''N'', lit ''Reference indexes'')]"

definition GROUPS :: "(pystr, (pystr, pystr) dict) dict" where
  "GROUPS = [
     (lit ''E'', GROUPS_E),
     (lit ''D'', GROUPS_D),
     (lit ''R'', GROUPS_R),
     (lit ''O'', GROUPS_O),
     (lit ''F'', GROUPS_F),
     (lit ''S'', GROUPS_S),
     (lit ''H'', GROUPS_H),
     (lit ''M'', GROUPS_M),
     (lit ''I'', GROUPS_I),
     (lit ''J'', GROUPS_J),
     (lit ''K'', GROUPS_K),
     (lit ''L'', GROUPS_L),
     (lit ''T'', GROUPS_T)]"

definition ATTRIBUTES_ES :: "(int, (pystr, pystr) dict) dict" where
  "ATTRIBUTES_ES = [
     (3, [(lit ''V'', lit ''Voting''), (lit ''N'', lit ''Non-voting''), (lit ''R'', lit ''Restricted voting''), (lit ''X'', lit ''Not applicable/Not specified'')]),
     (4, [(lit ''R'', lit ''Restricted''), (lit ''N'', lit ''Free''), (lit ''X'', lit ''Not applicable/Not specified'')]),
     (5, [(lit ''P'', lit ''Partly paid''), (lit ''F'', lit ''Fully paid''), (lit ''X'', lit ''Not applicable/Not specified'')]),
     (6, [(lit ''B'', lit ''Bearer''), (lit ''R'', lit ''Registered''), (lit ''X'', lit ''Not applicable/Not specified'')])]"

definition ATTRIBUTES_EU :: "(int, (pystr, pystr) dict) dict" where
  "ATTRIBUTES_EU = [
     (3, [(lit ''O'', lit ''Open-end''), (lit ''C'', lit ''Closed-end''), (lit ''X'', lit ''Not applicable/Not specified'')]),
     (4, [(lit ''R'', lit ''Restricted''), (lit ''N'', lit ''Free''), (lit ''X'', lit ''Not applicable/Not specified'')]),
     (5, [(lit ''D'', lit ''Limited dividend''), (lit ''C'', lit ''Cumulative''), (lit ''X'', lit ''Not applicable/Not specified'')]),
     (6, [(lit ''B'', lit ''Bearer''), (lit ''R'', lit ''Registered''), (lit ''X'', lit ''Not applicable/Not specified'')])]"

definition ATTRIBUTES_EF :: "(int, (pystr, pystr) dict) dict" where
  "ATTRIBUTES_EF = [
     (3, [(lit ''O'', lit ''Open-end''), (lit ''C'', lit ''Closed-end''), (lit ''X'', lit ''Not applicable/Not specified'')]),
     (4, [(lit ''R'', lit ''Restricted''), (lit ''N'', lit ''Free''), (lit ''X'', lit ''Not applicable/Not specified'')]),
     (5, [(lit ''S'', lit ''Synthetic''), (lit ''P'', lit ''Physical''), (lit ''H'', lit ''Hybrid''), (lit ''X'', lit ''Not applicable/Not specified'')]),
     (6, [(lit ''B'', lit ''Bearer''), (lit ''R'', lit ''Registered''), (lit ''X'', lit ''Not applicable/Not specified'')])]"

definition ATTRIBUTES_DB :: "(int, (pystr, pystr) dict) dict" where
  "ATTRIBUTES_DB = [
     (3, [(lit ''F'', lit ''Fixed rate''), (lit ''Z'', lit ''Zero coupon''), (lit ''V'', lit ''Variable rate''), (lit ''I'', lit ''Inflation linked''), (lit ''X'', lit ''Not applicable/Not specified'')]),
     (4, [(lit ''S'', lit ''Secured/Collateralized''), (lit ''U'', lit ''Unsecured/Uncollateralized''), (lit ''X'', lit ''Not applicable/Not specified'')]),
     (5, [(lit ''G'', lit ''Government/State guarantee''), (lit ''S'', lit ''Supranational guarantee''), (lit ''C'', lit ''Corporate guarantee''), (lit ''X'', lit ''Not applicable/Not specified'')]),
     (6, [(lit ''B'', lit ''Bearer''), (lit ''R'', lit ''Registered''), (lit ''X'', lit ''Not applicable/Not specified'')])]"

definition ATTRIBUTES_DT :: "(int, (pystr, pystr) dict) dict" where
  "ATTRIBUTES_DT = [
     (3, [(lit ''F'', lit ''Fixed rate''), (lit ''Z'', lit ''Zero coupon''), (lit ''V'', lit ''Variable rate''), (lit ''I'', lit ''Inflation linked''), (lit ''X'', lit ''Not applicable/Not specified'')]),
     (4, [(lit ''S'', lit ''Secured/Collateralized''), (lit ''U'', lit ''Unsecured/Uncollateralized''), (lit ''X'', lit ''Not applicable/Not specified'')]),
     (5, [(lit ''G'', lit ''Government/State guarantee''), (lit ''S'', lit ''Supranational guarantee''), (lit ''X'', lit ''Not applicable/Not specified'')]),
     (6, [(lit ''B'', lit ''Bearer''), (lit ''R'', lit ''Registered''), (lit ''X'', lit ''Not applicable/Not specified'')])]"

definition ATTRIBUTES_OC :: "(int, (pystr, pystr) dict) dict" where
  "ATTRIBUTES_OC = [
     (3, [(lit ''A'', lit ''American''), (lit ''B'', lit ''Bermuda''), (lit ''E'', lit ''European''), (lit ''X'', lit ''Not applicable/Not specified'')]),
     (4, [(lit ''S'', lit ''Standard''), (lit ''N'', lit ''Non-standard''), (lit ''X'', lit ''Not applicable/Not specified'')]),
     (5, [(lit ''P'', lit ''Physical''), (lit ''C'', lit ''Cash''), (lit ''X'', lit ''Not applicable/Not specified'')]),
     (6, [(lit ''X'', lit ''Not applicable/Not specified'')])]"

definition ATTRIBUTES_OP :: "(int, (pystr, pystr) dict) dict" where
  "ATTRIBUTES_OP = [
     (3, [(lit ''A'', lit ''American''), (lit ''B'', lit ''Bermuda''), (lit ''E'', lit ''European''), (lit ''X'', lit ''Not applicable/Not specified'')]),
     (4, [(lit ''S'', lit ''Standard''), (lit ''N'', lit ''Non-standard''), (lit ''X'', lit ''Not applicable/Not specified'')]),
     (5, [(lit ''P'', lit ''Physical''), (lit ''C'', lit ''Cash''), (lit ''X'', lit ''Not applicable/Not specified'')]),
     (6, [(lit ''X'', lit ''Not applicable/Not specified'')])]"

definition ATTRIBUTES_FF :: "(int, (pystr, pystr) dict) dict" where
  "ATTRIBUTES_FF = [
     (3, [(lit ''X'', lit ''Not applicable/Not specified'')]),
     (4, [(lit ''S'', lit ''Standard''), (lit ''N'', lit ''Non-standard''), (lit ''X'', lit ''Not applicable/Not specified'')]),
     (5, [(lit ''P'', lit ''Physical''), (lit ''C'', lit ''Cash''), (lit ''X'', lit ''Not applicable/Not specified'')]),
     (6, [(lit ''X'', lit ''Not applicable/Not specified'')])]"

definition ATTRIBUTES_SI :: "(int, (pystr, pystr) dict) dict" where
  "ATTRIBUTES_SI = [
     (3, [(lit ''F'', lit ''Fixed-floating''), (lit ''L'', lit ''Fixed-fixed''), (lit ''V'', lit ''Floating-floating''), (lit ''X'', lit ''Not applicable/Not specified'')]),
     (4, [(lit ''S'', lit ''Single currency''), (lit ''M'', lit ''Multi-currency''), (lit ''X'', lit ''Not applicable/Not specified'')]),
     (5, [(lit ''X'', lit ''Not applicable/Not specified'')]),
     (6, [(lit ''X'', lit ''Not applicable/Not specified'')])]"

definition ATTRIBUTES :: "(pystr, (int, (pystr, pystr) dict) dict) dict" where
  "ATTRIBUTES = [
     (lit ''ES'', ATTRIBUTES_ES),
     (lit ''EU'', ATTRIBUTES_EU),
     (lit ''EF'', ATTRIBUTES_EF),
     (lit ''DB'', ATTRIBUTES_DB),
     (lit ''DT'', ATTRIBUTES_DT),
     (lit ''OC'', ATTRIBUTES_OC),
     (lit ''OP'', ATTRIBUTES_OP),
     (lit ''FF'', ATTRIBUTES_FF),
     (lit ''SI'', ATTRIBUTES_SI)]"

section \<open>The compact validator: \<open>CFIValidator.validate\<close> of \<open>cfi_validator.py\<close>\<close>

text \<open>The messages (the f-strings of the source).\<close>

definition msg_not_string :: pystr where
  "msg_not_string = lit ''CFI code must be a string''"

definition msg_length :: pystr where
  "msg_length = lit ''CFI code must be exactly 6 characters''"

definition msg_not_alpha :: pystr where
  "msg_not_alpha = lit ''CFI code must contain only alphabetic characters''"

definition msg_category :: "pystr \<Rightarrow> pystr" where
  "msg_category category =
     lit ''Invalid category '' @ apostrophe @ category @ apostrophe @ lit ''. Must be one of: ''
       @ join (lit '', '') (dict_keys CATEGORIES)"

definition msg_group :: "pystr \<Rightarrow> pystr \<Rightarrow> pystr list \<Rightarrow> pystr" where
  "msg_group group' category ks =
     lit ''Invalid group '' @ apostrophe @ group' @ apostrophe @ lit '' for category ''
       @ apostrophe @ category @ apostrophe @ lit ''. Valid groups: '' @ join (lit '', '') ks"

definition msg_attribute :: "pystr \<Rightarrow> int \<Rightarrow> pystr \<Rightarrow> pystr list \<Rightarrow> pystr" where
  "msg_attribute char position_index category_group valid_chars =
     lit ''Invalid attribute '' @ apostrophe @ char @ apostrophe @ lit '' at position ''
       @ str_int position_index @ lit '' for '' @ category_group @ lit ''. Valid options: ''
       @ join (lit '', '') valid_chars"

definition msg_position_alpha :: "int \<Rightarrow> pystr" where
  "msg_position_alpha position_index =
     lit ''Character at position '' @ str_int position_index @ lit '' must be alphabetic''"

definition msg_valid :: "pystr \<Rightarrow> pystr \<Rightarrow> pystr" where
  "msg_valid category_description group_description =
     lit ''Valid CFI code for '' @ category_description @ lit '' - '' @ group_description"

text \<open>
  The body of the loop over a pair that has an entry in \<open>ATTRIBUTES\<close>
  (\<open>for position in range(2, 6)\<close>). The loop has no state of its own.
\<close>

definition attribute_step ::
    "unicode \<Rightarrow> pystr \<Rightarrow> pystr \<Rightarrow> int \<Rightarrow> unit \<Rightarrow> py_error + (bool \<times> pystr, unit) flow" where
  "attribute_step U cfi_code category_group position s =
     bindE (str_get cfi_code position) (\<lambda>char.
     let position_index = position + 1 in
     bindE (dict_item ATTRIBUTES category_group) (\<lambda>rules.
       if dict_has rules (position + 1) then
         bindE (dict_item rules (position + 1)) (\<lambda>options.
           let valid_chars = dict_keys options in
           if char \<notin> set valid_chars then
             Inr (Return (False, msg_attribute char position_index category_group valid_chars))
           else Inr (Next ()))
       else
         if \<not> str_isalpha U char then Inr (Return (False, msg_position_alpha position_index))
         else Inr (Next ())))"

text \<open>The body of the loop over a pair without an entry (\<open>for i in range(2, 6)\<close>).\<close>

definition alphabetic_step ::
    "unicode \<Rightarrow> pystr \<Rightarrow> int \<Rightarrow> unit \<Rightarrow> py_error + (bool \<times> pystr, unit) flow" where
  "alphabetic_step U cfi_code i s =
     bindE (str_get cfi_code i) (\<lambda>char.
       if \<not> str_isalpha U char then
         (let position_index = i + 1 in Inr (Return (False, msg_position_alpha position_index)))
       else Inr (Next ()))"

text \<open>The final \<open>return True, ...\<close>.\<close>

definition valid_result :: "pystr \<Rightarrow> pystr \<Rightarrow> py_error + bool \<times> pystr" where
  "valid_result category group' =
     bindE (dict_item CATEGORIES category) (\<lambda>category_description.
     bindE (dict_item GROUPS category) (\<lambda>groups.
     bindE (dict_item groups group') (\<lambda>group_description.
       Inr (True, msg_valid category_description group_description))))"

text \<open>
  \<open>validate\<close> from the assignment \<open>cfi_code = cfi_code.upper()\<close> on; \<open>cfi_code\<close> is the
  upper-cased string.
\<close>

definition validate_upper :: "unicode \<Rightarrow> pystr \<Rightarrow> py_error + bool \<times> pystr" where
  "validate_upper U cfi_code =
     bindE (str_get cfi_code 0) (\<lambda>category.
     if \<not> dict_has CATEGORIES category then Inr (False, msg_category category)
     else
       bindE (str_get cfi_code 1) (\<lambda>group'.
       if \<not> dict_has (dict_get GROUPS category []) group' then
         bindE (dict_item GROUPS category) (\<lambda>groups.
           Inr (False, msg_group group' category (dict_keys groups)))
       else
         let category_group = category @ group' in
         bindE (if dict_has ATTRIBUTES category_group
                then for_loop (attribute_step U cfi_code category_group) (py_range 2 6) ()
                else for_loop (alphabetic_step U cfi_code) (py_range 2 6) ())
           (\<lambda>r. case r of
                  Return res \<Rightarrow> Inr res
                | Next u \<Rightarrow> valid_result category group')))"

text \<open>
  \<open>validate(cfi_code)\<close>. The first check evaluates \<open>not cfi_code\<close> before
  \<open>isinstance(cfi_code, str)\<close>, so the truth test runs on every argument. After the check
  the argument is a string; \<open>len\<close> of anything else would raise \<open>TypeError\<close>.
\<close>

definition validate :: "unicode \<Rightarrow> pyval \<Rightarrow> py_error + bool \<times> pystr" where
  "validate U cfi_code =
     bindE (truthy cfi_code) (\<lambda>truth.
       if \<not> truth \<or> \<not> isinstance_str cfi_code then Inr (False, msg_not_string)
       else
         case cfi_code of
           PyStr s \<Rightarrow>
             if length s \<noteq> 6 then Inr (False, msg_length)
             else if \<not> str_isalpha U s then Inr (False, msg_not_alpha)
             else validate_upper U (str_upper U s)
         | _ \<Rightarrow> Inl TypeError)"

section \<open>The detailed validator: \<open>CFIValidator.validate\<close> of \<open>cfi_validator_test.py\<close>\<close>

text \<open>
  An entry of \<open>positions_info\<close>: the dictionary with the keys \<open>'description'\<close>, \<open>'value'\<close>,
  \<open>'meaning'\<close>, \<open>'valid'\<close> and, once a position has failed, \<open>'error'\<close>. \<open>None\<close> in \<open>val\<close>,
  \<open>meaning\<close> and \<open>valid\<close> is Python's \<open>None\<close>; \<open>None\<close> in \<open>error\<close> says that the key is absent.
\<close>

record pos_info =
  description :: pystr
  val :: "pystr option"
  meaning :: "pystr option"
  valid :: "bool option"
  error :: "pystr option"

type_synonym positions_info = "(int, pos_info) dict"

type_synonym detailed_result = "bool \<times> pystr \<times> positions_info"

definition msg_custom :: pystr where
  "msg_custom = lit ''Custom attribute (no predefined meaning)''"

definition msg_not_applicable :: pystr where
  "msg_not_applicable = lit ''Not applicable/Not specified''"

text \<open>\<open>positions_info[i][key] = v\<close>: the entry is looked up, then one of its keys is set.\<close>

definition set_entry :: "positions_info \<Rightarrow> int \<Rightarrow> (pos_info \<Rightarrow> pos_info) \<Rightarrow> py_error + positions_info" where
  "set_entry positions_info i f =
     bindE (dict_item positions_info i) (\<lambda>entry. Inr (dict_set positions_info i (f entry)))"

text \<open>\<open>positions_info[i]['error']\<close>.\<close>

definition get_error :: "positions_info \<Rightarrow> int \<Rightarrow> py_error + pystr" where
  "get_error positions_info i =
     bindE (dict_item positions_info i) (\<lambda>entry.
       case error entry of None \<Rightarrow> Inl KeyError | Some msg \<Rightarrow> Inr msg)"

text \<open>
  The two blocks that every position check ends with: \<open>meaning\<close> and \<open>valid = True\<close> are
  set and the check goes on; or \<open>valid = False\<close> and \<open>error\<close> are set and the function
  returns \<open>False\<close>, the stored error and \<open>positions_info\<close>.
\<close>

definition accept :: "positions_info \<Rightarrow> int \<Rightarrow> pystr \<Rightarrow> py_error + (detailed_result, positions_info) flow" where
  "accept positions_info i m =
     bindE (set_entry positions_info i (\<lambda>entry. entry\<lparr>meaning := Some m\<rparr>)) (\<lambda>positions_info.
     bindE (set_entry positions_info i (\<lambda>entry. entry\<lparr>valid := Some True\<rparr>)) (\<lambda>positions_info.
       Inr (Next positions_info)))"

definition reject :: "positions_info \<Rightarrow> int \<Rightarrow> pystr \<Rightarrow> py_error + (detailed_result, positions_info) flow" where
  "reject positions_info i msg =
     bindE (set_entry positions_info i (\<lambda>entry. entry\<lparr>valid := Some False\<rparr>)) (\<lambda>positions_info.
     bindE (set_entry positions_info i (\<lambda>entry. entry\<lparr>error := Some msg\<rparr>)) (\<lambda>positions_info.
     bindE (get_error positions_info i) (\<lambda>stored.
       Inr (Return (False, stored, positions_info)))))"

text \<open>The loop that prepares \<open>positions_info\<close> (\<open>for i in range(1, 7)\<close>).\<close>

definition prepare_step :: "int \<Rightarrow> positions_info \<Rightarrow> py_error + (detailed_result, positions_info) flow" where
  "prepare_step i positions_info =
     bindE (dict_item POSITION_DESCRIPTIONS i) (\<lambda>d.
       Inr (Next (dict_set positions_info i
         \<lparr>description = d, val = None, meaning = None, valid = None, error = None\<rparr>)))"

text \<open>Position 1.\<close>

definition check_category :: "pystr \<Rightarrow> positions_info \<Rightarrow> py_error + (detailed_result, positions_info) flow" where
  "check_category category positions_info =
     bindE (set_entry positions_info 1 (\<lambda>entry. entry\<lparr>val := Some category\<rparr>)) (\<lambda>positions_info.
     if dict_has CATEGORIES category then
       bindE (dict_item CATEGORIES category) (\<lambda>m. accept positions_info 1 m)
     else reject positions_info 1 (msg_category category))"

text \<open>Position 2.\<close>

definition check_group :: "pystr \<Rightarrow> pystr \<Rightarrow> positions_info \<Rightarrow> py_error + (detailed_result, positions_info) flow" where
  "check_group category group' positions_info =
     bindE (set_entry positions_info 2 (\<lambda>entry. entry\<lparr>val := Some group'\<rparr>)) (\<lambda>positions_info.
     if dict_has (dict_get GROUPS category []) group' then
       bindE (dict_item GROUPS category) (\<lambda>groups.
       bindE (dict_item groups group') (\<lambda>m. accept positions_info 2 m))
     else
       bindE (dict_item GROUPS category) (\<lambda>groups.
         reject positions_info 2 (msg_group group' category (dict_keys groups))))"

text \<open>Positions 3 to 6 of a pair that has an entry in \<open>ATTRIBUTES\<close>.\<close>

definition attribute_step_detailed ::
    "unicode \<Rightarrow> pystr \<Rightarrow> pystr \<Rightarrow> int \<Rightarrow> positions_info \<Rightarrow> py_error + (detailed_result, positions_info) flow" where
  "attribute_step_detailed U cfi_code category_group position positions_info =
     bindE (str_get cfi_code position) (\<lambda>char.
     let position_index = position + 1 in
     bindE (set_entry positions_info position_index (\<lambda>entry. entry\<lparr>val := Some char\<rparr>)) (\<lambda>positions_info.
     bindE (dict_item ATTRIBUTES category_group) (\<lambda>rules.
       if dict_has rules position_index then
         bindE (dict_item rules position_index) (\<lambda>options.
           let valid_chars = dict_keys options in
           if char \<in> set valid_chars then
             bindE (dict_item options char) (\<lambda>m. accept positions_info position_index m)
           else
             reject positions_info position_index
               (msg_attribute char position_index category_group valid_chars))
       else
         if str_isalpha U char then accept positions_info position_index msg_custom
         else reject positions_info position_index (msg_position_alpha position_index))))"

text \<open>Positions 3 to 6 of a pair without an entry.\<close>

definition alphabetic_step_detailed ::
    "unicode \<Rightarrow> pystr \<Rightarrow> int \<Rightarrow> positions_info \<Rightarrow> py_error + (detailed_result, positions_info) flow" where
  "alphabetic_step_detailed U cfi_code i positions_info =
     (let position_index = i + 1 in
      bindE (str_get cfi_code i) (\<lambda>char.
      bindE (set_entry positions_info position_index (\<lambda>entry. entry\<lparr>val := Some char\<rparr>)) (\<lambda>positions_info.
        if str_isalpha U char then
          accept positions_info position_index
            (if char = lit ''X'' then msg_not_applicable else msg_custom)
        else reject positions_info position_index (msg_position_alpha position_index))))"

text \<open>The final \<open>return True, ..., positions_info\<close>.\<close>

definition valid_result_detailed :: "pystr \<Rightarrow> pystr \<Rightarrow> positions_info \<Rightarrow> py_error + detailed_result" where
  "valid_result_detailed category group' positions_info =
     bindE (dict_item CATEGORIES category) (\<lambda>category_description.
     bindE (dict_item GROUPS category) (\<lambda>groups.
     bindE (dict_item groups group') (\<lambda>group_description.
       Inr (True, msg_valid category_description group_description, positions_info))))"

text \<open>The detailed \<open>validate\<close> from \<open>cfi_code = cfi_code.upper()\<close> on.\<close>

definition validate_detailed_upper :: "unicode \<Rightarrow> pystr \<Rightarrow> positions_info \<Rightarrow> py_error + detailed_result" where
  "validate_detailed_upper U cfi_code positions_info =
     bindE (str_get cfi_code 0) (\<lambda>category.
     bindE (check_category category positions_info) (\<lambda>r1.
     case r1 of
       Return res \<Rightarrow> Inr res
     | Next positions_info \<Rightarrow>
         bindE (str_get cfi_code 1) (\<lambda>group'.
         bindE (check_group category group' positions_info) (\<lambda>r2.
         case r2 of
           Return res \<Rightarrow> Inr res
         | Next positions_info \<Rightarrow>
             let category_group = category @ group' in
             bindE (if dict_has ATTRIBUTES category_group
                    then for_loop (attribute_step_detailed U cfi_code category_group)
                           (py_range 2 6) positions_info
                    else for_loop (alphabetic_step_detailed U cfi_code)
                           (py_range 2 6) positions_info)
               (\<lambda>r3. case r3 of
                       Return res \<Rightarrow> Inr res
                     | Next positions_info \<Rightarrow>
                         valid_result_detailed category group' positions_info)))))"

text \<open>The detailed \<open>validate(cfi_code)\<close>.\<close>

definition validate_detailed :: "unicode \<Rightarrow> pyval \<Rightarrow> py_error + detailed_result" where
  "validate_detailed U cfi_code =
     bindE (for_loop prepare_step (py_range 1 7) []) (\<lambda>r0.
     case r0 of
       Return res \<Rightarrow> Inr res
     | Next positions_info \<Rightarrow>
         bindE (truthy cfi_code) (\<lambda>truth.
           if \<not> truth \<or> \<not> isinstance_str cfi_code then
             Inr (False, msg_not_string, positions_info)
           else
             case cfi_code of
               PyStr s \<Rightarrow>
                 if length s \<noteq> 6 then Inr (False, msg_length, positions_info)
                 else if \<not> str_isalpha U s then Inr (False, msg_not_alpha, positions_info)
                 else validate_detailed_upper U (str_upper U s) positions_info
             | _ \<Rightarrow> Inl TypeError))"

section \<open>Introspection: \<open>CFIValidator.get_position_options\<close> of \<open>cfi_validator_test.py\<close>\<close>

text \<open>
  \<open>category\<close> and \<open>group\<close> are a string or \<open>None\<close>. \<open>None in CATEGORIES\<close> is false, and
  \<open>category and group\<close> holds when both are non-empty strings.
\<close>

definition opt_in :: "pystr option \<Rightarrow> (pystr, 'v) dict \<Rightarrow> bool" where
  "opt_in k d = (case k of None \<Rightarrow> False | Some s \<Rightarrow> dict_has d s)"

definition opt_truthy :: "pystr option \<Rightarrow> bool" where
  "opt_truthy k = (case k of None \<Rightarrow> False | Some s \<Rightarrow> s \<noteq> [])"

definition default_options :: "(pystr, pystr) dict" where
  "default_options = [(lit ''X'', lit ''Not applicable/Not specified'')]"

definition get_position_options ::
    "pystr option \<Rightarrow> pystr option \<Rightarrow> int \<Rightarrow> py_error + (pystr, pystr) dict" where
  "get_position_options category group' position =
     (if position = 1 then Inr CATEGORIES
      else if position = 2 \<and> opt_in category CATEGORIES then
        (case category of
           Some c \<Rightarrow> Inr (dict_get GROUPS c [])
         | None \<Rightarrow> Inl TypeError)
      else if position \<in> set [3, 4, 5, 6] \<and> opt_truthy category \<and> opt_truthy group' then
        (case (category, group') of
           (Some c, Some g) \<Rightarrow>
             (let category_group = c @ g in
              if dict_has ATTRIBUTES category_group then
                bindE (dict_item ATTRIBUTES category_group) (\<lambda>rules.
                  if dict_has rules position then dict_item rules position
                  else Inr default_options)
              else Inr default_options)
         | _ \<Rightarrow> Inl TypeError)
      else Inr [])"

section \<open>The presentation helpers \<open>display_cfi_details\<close>\<close>

text \<open>
  What a helper has printed, one string for each call of \<open>print\<close>, and the exception that
  ended it, if any.
\<close>

type_synonym printed = "pystr list \<times> py_error option"

definition print_line :: "pystr \<Rightarrow> printed" where
  "print_line s = ([s], None)"

definition nothing :: printed where
  "nothing = ([], None)"

definition then_do :: "printed \<Rightarrow> printed \<Rightarrow> printed" where
  "then_do p q = (case snd p of Some e \<Rightarrow> p | None \<Rightarrow> (fst p @ fst q, snd q))"

definition with_value :: "py_error + 'a \<Rightarrow> ('a \<Rightarrow> printed) \<Rightarrow> printed" where
  "with_value m f = (case m of Inl e \<Rightarrow> ([], Some e) | Inr x \<Rightarrow> f x)"

text \<open>A \<open>for\<close> loop whose body only prints.\<close>

fun print_each :: "('i \<Rightarrow> printed) \<Rightarrow> 'i list \<Rightarrow> printed" where
  "print_each body [] = nothing"
| "print_each body (x # xs) = then_do (body x) (print_each body xs)"

text \<open>\<open>print(f"  {key} - {value}")\<close> for every item of a dictionary.\<close>

definition print_items :: "(pystr, pystr) dict \<Rightarrow> printed" where
  "print_items d =
     print_each (\<lambda>(key, value'). print_line (lit ''  '' @ key @ lit '' - '' @ value')) d"

subsection \<open>\<open>display_cfi_details\<close> of \<open>cfi_validator.py\<close>\<close>

definition display_unlisted :: "int \<Rightarrow> pystr \<Rightarrow> printed" where
  "display_unlisted pos_index char =
     (if char = lit ''X'' then
        print_line (lit ''Attribute '' @ str_int pos_index @ lit '': '' @ char
                      @ lit '' - Not applicable/Not specified'')
      else print_line (lit ''Attribute '' @ str_int pos_index @ lit '': '' @ char))"

definition display_attribute :: "pystr \<Rightarrow> pystr \<Rightarrow> int \<Rightarrow> printed" where
  "display_attribute cfi_code category_group pos =
     with_value (str_get cfi_code pos) (\<lambda>char.
     let pos_index = pos + 1 in
     with_value (dict_item ATTRIBUTES category_group) (\<lambda>rules.
       if dict_has rules pos_index then
         with_value (dict_item rules pos_index) (\<lambda>options.
           if dict_has options char then
             with_value (dict_item options char) (\<lambda>attr_desc.
               print_line (lit ''Attribute '' @ str_int pos_index @ lit '': '' @ char
                             @ lit '' - '' @ attr_desc))
           else display_unlisted pos_index char)
       else display_unlisted pos_index char))"

definition display_plain :: "pystr \<Rightarrow> int \<Rightarrow> printed" where
  "display_plain cfi_code pos =
     with_value (str_get cfi_code pos) (\<lambda>char.
     let pos_index = pos + 1 in display_unlisted pos_index char)"

definition display_cfi_details :: "unicode \<Rightarrow> pystr \<Rightarrow> printed" where
  "display_cfi_details U cfi_code0 =
     (let cfi_code = str_upper U cfi_code0 in
      with_value (str_get cfi_code 0) (\<lambda>category.
      with_value (str_get cfi_code 1) (\<lambda>group'.
      let category_group = category @ group' in
      then_do (print_line ([10] @ lit ''CFI Code: '' @ cfi_code))
     (then_do (print_line (lit ''======================''))
     (then_do (print_line (lit ''Category (1st): '' @ category @ lit '' - ''
                             @ dict_get CATEGORIES category (lit ''Unknown'')))
     (then_do (print_line (lit ''Group (2nd): '' @ group' @ lit '' - ''
                             @ dict_get (dict_get GROUPS category []) group' (lit ''Unknown'')))
        (if dict_has ATTRIBUTES category_group
         then print_each (display_attribute cfi_code category_group) (py_range 2 6)
         else print_each (display_plain cfi_code) (py_range 2 6))))))))"

subsection \<open>\<open>display_cfi_details\<close> of \<open>cfi_validator_test.py\<close>\<close>

text \<open>A value inside an f-string; \<open>None\<close> prints as \<open>None\<close>.\<close>

definition fmt :: "pystr option \<Rightarrow> pystr" where
  "fmt v = (case v of None \<Rightarrow> lit ''None'' | Some s \<Rightarrow> s)"

text \<open>The three characters before \<open>Invalid CFI code\<close>, as they are in the source file.\<close>

definition cross_mark :: pystr where
  "cross_mark = [226, 339, 8212]"

definition display_options :: "pystr \<Rightarrow> int \<Rightarrow> printed" where
  "display_options cfi_code pos =
     (if pos = 1 then
        then_do (print_line (lit ''Possible options:'')) (print_items CATEGORIES)
      else if pos = 2 then
        with_value (str_get cfi_code 0) (\<lambda>category.
          then_do (print_line (lit ''Possible options for category '' @ category @ lit '':''))
            (with_value (dict_item GROUPS category) print_items))
      else
        (let category_group = str_slice02 cfi_code in
         if dict_has ATTRIBUTES category_group then
           with_value (dict_item ATTRIBUTES category_group) (\<lambda>rules.
             if dict_has rules pos then
               then_do (print_line (lit ''Possible options for position '' @ str_int pos @ lit '':''))
                 (with_value (dict_item rules pos) print_items)
             else print_line (lit ''No specific validation rules for this position.''))
         else print_line (lit ''No specific validation rules for this position.'')))"

definition display_position :: "pystr \<Rightarrow> positions_info \<Rightarrow> int \<Rightarrow> printed" where
  "display_position cfi_code positions_info pos =
     with_value (dict_item positions_info pos) (\<lambda>info.
       then_do (print_line ([10] @ lit ''Position '' @ str_int pos @ lit '': '' @ fmt (val info)))
      (then_do (print_line (lit ''Description: '' @ description info))
      (then_do (print_line (lit ''Meaning: '' @ fmt (meaning info)))
         (display_options cfi_code pos))))"

definition display_cfi_details_detailed :: "unicode \<Rightarrow> pyval \<Rightarrow> printed" where
  "display_cfi_details_detailed U cfi_code =
     with_value (validate_detailed U cfi_code) (\<lambda>(is_valid, message, positions_info).
       if \<not> is_valid then
         print_line ([10] @ cross_mark @ lit '' Invalid CFI code: '' @ message)
       else
         case cfi_code of
           PyStr s \<Rightarrow>
             then_do (print_line ([10] @ lit ''CFI Code: '' @ s))
            (then_do (print_line (lit ''===================''))
            (then_do (print_line (lit ''ISO 10962 Classification of Financial Instruments''))
            (then_do (print_line (lit ''===================''))
               (print_each (display_position s positions_info) (py_range 1 7)))))
         | _ \<Rightarrow> ([], Some TypeError))"

section \<open>Notions used by the properties\<close>

text \<open>\<open>positions_info\<close> as the preparation loop leaves it: every position unresolved.\<close>

definition prepared :: positions_info where
  "prepared = map (\<lambda>(i, d). (i, \<lparr>description = d, val = None, meaning = None,
                                   valid = None, error = None\<rparr>)) POSITION_DESCRIPTIONS"

text \<open>
  A position is resolved (valid, with a value and a meaning), unresolved (nothing set),
  or failed with a message.
\<close>

definition entry_resolved :: "positions_info \<Rightarrow> int \<Rightarrow> bool" where
  "entry_resolved p i =
     (case map_of p i of
        None \<Rightarrow> False
      | Some e \<Rightarrow> valid e = Some True \<and> val e \<noteq> None \<and> meaning e \<noteq> None \<and> error e = None)"

definition entry_unresolved :: "positions_info \<Rightarrow> int \<Rightarrow> bool" where
  "entry_unresolved p i =
     (case map_of p i of
        None \<Rightarrow> False
      | Some e \<Rightarrow> val e = None \<and> meaning e = None \<and> valid e = None \<and> error e = None)"

definition entry_failed :: "positions_info \<Rightarrow> int \<Rightarrow> pystr \<Rightarrow> bool" where
  "entry_failed p i msg =
     (case map_of p i of
        None \<Rightarrow> False
      | Some e \<Rightarrow> valid e = Some False \<and> error e = Some msg)"

text \<open>The value recorded for a position, if any.\<close>

definition entry_value :: "positions_info \<Rightarrow> int \<Rightarrow> pystr option" where
  "entry_value p i = (case map_of p i of None \<Rightarrow> None | Some e \<Rightarrow> val e)"

text \<open>
  The decomposition fails at position \<open>k\<close>: position \<open>k\<close> carries the message with
  \<open>valid = False\<close>, the positions before it are resolved and the positions after it are
  unresolved.
\<close>

definition fails_at :: "positions_info \<Rightarrow> pystr \<Rightarrow> int \<Rightarrow> bool" where
  "fails_at p msg k =
     (entry_failed p k msg
      \<and> (\<forall>j \<in> set (py_range 1 k). entry_resolved p j)
      \<and> (\<forall>j \<in> set (py_range (k + 1) 7). entry_unresolved p j))"

text \<open>
  What the claims say about the positions, in the words of the specification and
  independently of the validators. \<open>char_at t k\<close> is the character at the 1-indexed
  position \<open>k\<close> of the upper-cased code \<open>t\<close>. Position 1 is legal when it is a category,
  position 2 when it is a group of that category, a position from 3 to 6 when it is among
  the options that the pair defines for it, or a letter where nothing is defined.
\<close>

definition char_at :: "pystr \<Rightarrow> int \<Rightarrow> pystr" where
  "char_at t k = take 1 (drop (nat (k - 1)) t)"

definition position_ok :: "unicode \<Rightarrow> pystr \<Rightarrow> int \<Rightarrow> bool" where
  "position_ok U t k =
     (if k = 1 then dict_has CATEGORIES (char_at t 1)
      else if k = 2 then dict_has (dict_get GROUPS (char_at t 1) []) (char_at t 2)
      else
        case map_of ATTRIBUTES (char_at t 1 @ char_at t 2) of
          None \<Rightarrow> str_isalpha U (char_at t k)
        | Some rules \<Rightarrow>
            (case map_of rules k of
               None \<Rightarrow> str_isalpha U (char_at t k)
             | Some options \<Rightarrow> dict_has options (char_at t k)))"

text \<open>The first position, from left to right, that is not legal.\<close>

definition first_offending :: "unicode \<Rightarrow> pystr \<Rightarrow> int option" where
  "first_offending U t = find (\<lambda>k. \<not> position_ok U t k) (py_range 1 7)"

text \<open>The message of the failure at position \<open>k\<close>: it names the kind of the failure.\<close>

definition expected_message :: "pystr \<Rightarrow> int \<Rightarrow> pystr" where
  "expected_message t k =
     (if k = 1 then msg_category (char_at t 1)
      else if k = 2 then
        msg_group (char_at t 2) (char_at t 1) (dict_keys (dict_get GROUPS (char_at t 1) []))
      else
        case map_of ATTRIBUTES (char_at t 1 @ char_at t 2) of
          None \<Rightarrow> msg_position_alpha k
        | Some rules \<Rightarrow>
            (case map_of rules k of
               None \<Rightarrow> msg_position_alpha k
             | Some options \<Rightarrow>
                 msg_attribute (char_at t k) k (char_at t 1 @ char_at t 2) (dict_keys options)))"

text \<open>The positions up to \<open>k\<close> record the characters of the code.\<close>

definition values_recorded :: "pystr \<Rightarrow> int \<Rightarrow> positions_info \<Rightarrow> bool" where
  "values_recorded t k p =
     (\<forall>j \<in> set (py_range 1 (k + 1)). entry_value p j = Some (char_at t j))"

text \<open>
  The upper-cased code of an input that passes the checks on the whole string, and the
  message of the check that an input fails otherwise.
\<close>

definition normalized :: "unicode \<Rightarrow> pyval \<Rightarrow> pystr option" where
  "normalized U v =
     (case v of
        PyStr s \<Rightarrow> if length s = 6 \<and> str_isalpha U s then Some (str_upper U s) else None
      | _ \<Rightarrow> None)"

definition whole_string_message :: "pyval \<Rightarrow> pystr" where
  "whole_string_message v =
     (case v of
        PyStr s \<Rightarrow>
          if s = [] then msg_not_string else if length s \<noteq> 6 then msg_length
          else msg_not_alpha
      | _ \<Rightarrow> msg_not_string)"

text \<open>
  The decomposition that the claims require for the input \<open>v\<close>. An input that fails a
  check on the whole string has that check's message and no position looked at. Otherwise
  the result is valid exactly when no position offends, and then all six positions are
  resolved; when position \<open>k\<close> is the first that offends, the result is invalid with the
  message of that failure, the decomposition fails at \<open>k\<close>, and the positions up to \<open>k\<close>
  record the characters of the code.
\<close>

definition decomposition_ok :: "unicode \<Rightarrow> pyval \<Rightarrow> detailed_result \<Rightarrow> bool" where
  "decomposition_ok U v r =
     (case r of (is_valid, message, p) \<Rightarrow>
        case normalized U v of
          None \<Rightarrow>
            \<not> is_valid \<and> message = whole_string_message v
            \<and> (\<forall>i \<in> set (py_range 1 7). entry_unresolved p i)
        | Some t \<Rightarrow>
            (case first_offending U t of
               None \<Rightarrow>
                 is_valid \<and> (\<forall>i \<in> set (py_range 1 7). entry_resolved p i)
                 \<and> values_recorded t 6 p
             | Some k \<Rightarrow>
                 \<not> is_valid \<and> message = expected_message t k \<and> fails_at p message k
                 \<and> values_recorded t k p))"

text \<open>The first two components of a detailed result.\<close>

definition compact_of :: "py_error + detailed_result \<Rightarrow> py_error + bool \<times> pystr" where
  "compact_of r = (case r of Inl e \<Rightarrow> Inl e | Inr (is_valid, message, p) \<Rightarrow> Inr (is_valid, message))"

text \<open>A string of ASCII letters.\<close>

definition ascii_letters :: "pystr \<Rightarrow> bool" where
  "ascii_letters s = list_all (\<lambda>c. ascii_isupper c \<or> ascii_islower c) s"

text \<open>
  The state of \<open>positions_info\<close> when the check of the code \<open>t\<close> reaches position \<open>k\<close>: the
  positions before \<open>k\<close> are resolved and record the characters of the code, the others
  are unresolved.
\<close>

definition resolved_before :: "pystr \<Rightarrow> int \<Rightarrow> positions_info \<Rightarrow> bool" where
  "resolved_before t k p =
     ((\<forall>j. 1 \<le> j \<and> j < k \<and> j \<le> 6 \<longrightarrow>
          entry_resolved p j \<and> entry_value p j = Some (char_at t j))
      \<and> (\<forall>j. 1 \<le> j \<and> k \<le> j \<and> j \<le> 6 \<longrightarrow> entry_unresolved p j))"

text \<open>
  The decomposition of a failure at position \<open>k\<close> of the code \<open>t\<close>: the position is not
  legal, the message is the one of that failure, and the decomposition fails at \<open>k\<close>.
\<close>

definition failure_at :: "unicode \<Rightarrow> pystr \<Rightarrow> int \<Rightarrow> pystr \<Rightarrow> positions_info \<Rightarrow> bool" where
  "failure_at U t k m p =
     (\<not> position_ok U t k \<and> m = expected_message t k \<and> fails_at p m k
      \<and> values_recorded t k p)"

text \<open>
  How the check of position \<open>k\<close> in the detailed validator (\<open>d\<close>) relates to the same check
  in the compact validator (\<open>c\<close>): both raise (which takes a string shorter than six
  characters), both go on and the position is legal, or both return the same failure, the
  detailed one with the decomposition of a failure at \<open>k\<close>.
\<close>

definition outcome_rel ::
    "unicode \<Rightarrow> pystr \<Rightarrow> int \<Rightarrow> py_error + (detailed_result, positions_info) flow
       \<Rightarrow> py_error + (bool \<times> pystr, unit) flow \<Rightarrow> bool" where
  "outcome_rel U t k d c =
     (case d of
        Inl e \<Rightarrow> c = Inl e \<and> length t < 6
      | Inr (Next p') \<Rightarrow>
          c = Inr (Next ()) \<and> resolved_before t (k + 1) p' \<and> position_ok U t k
      | Inr (Return (b, m, p')) \<Rightarrow>
          c = Inr (Return (b, m)) \<and> \<not> b \<and> failure_at U t k m p')"

text \<open>The same for the loop over the positions from \<open>k\<close> to 6.\<close>

definition loop_rel ::
    "unicode \<Rightarrow> pystr \<Rightarrow> int \<Rightarrow> py_error + (detailed_result, positions_info) flow
       \<Rightarrow> py_error + (bool \<times> pystr, unit) flow \<Rightarrow> bool" where
  "loop_rel U t k d c =
     (case d of
        Inl e \<Rightarrow> c = Inl e \<and> length t < 6
      | Inr (Next p') \<Rightarrow>
          c = Inr (Next ()) \<and> resolved_before t 7 p'
          \<and> (\<forall>i. k \<le> i \<and> i \<le> 6 \<longrightarrow> position_ok U t i)
      | Inr (Return (b, m, p')) \<Rightarrow>
          c = Inr (Return (b, m)) \<and> \<not> b
          \<and> (\<exists>j. k \<le> j \<and> j \<le> 6 \<and> (\<forall>i. k \<le> i \<and> i < j \<longrightarrow> position_ok U t i)
                 \<and> failure_at U t j m p'))"

text \<open>
  The same for the results of the two validators on the code \<open>t\<close>: a valid result has all
  positions legal and resolved, an invalid one is the failure at the first position that
  is not legal.
\<close>

definition located :: "unicode \<Rightarrow> pystr \<Rightarrow> detailed_result \<Rightarrow> bool" where
  "located U t r =
     (case r of (b, m, p) \<Rightarrow>
        if b then (\<forall>i. 1 \<le> i \<and> i \<le> 6 \<longrightarrow> position_ok U t i) \<and> resolved_before t 7 p
        else (\<exists>j. 1 \<le> j \<and> j \<le> 6 \<and> (\<forall>i. 1 \<le> i \<and> i < j \<longrightarrow> position_ok U t i)
                 \<and> failure_at U t j m p))"

definition result_rel ::
    "unicode \<Rightarrow> pystr \<Rightarrow> py_error + detailed_result \<Rightarrow> py_error + bool \<times> pystr \<Rightarrow> bool" where
  "result_rel U t d c =
     (case d of
        Inl e \<Rightarrow> c = Inl e \<and> length t < 6
      | Inr (b, m, p') \<Rightarrow> c = Inr (b, m) \<and> located U t (b, m, p'))"

section \<open>Basic facts\<close>


lemma bindE_simps [simp]: "bindE (Inl e) f = Inl e" "bindE (Inr x) f = f x"
  by (simp_all add: bindE_def)

lemma py_range_1_7: "py_range 1 7 = [1, 2, 3, 4, 5, 6]"
  by (simp add: py_range_def upto.simps)

lemma py_range_2_6: "py_range 2 6 = [2, 3, 4, 5]"
  by (simp add: py_range_def upto.simps)

lemma py_range_3_7: "py_range 3 7 = [3, 4, 5, 6]"
  by (simp add: py_range_def upto.simps)

lemma set_py_range: "set (py_range a b) = {j. a \<le> j \<and> j < b}"
  by (auto simp: py_range_def)

lemma dict_has_keys: "dict_has d k \<longleftrightarrow> k \<in> set (dict_keys d)"
  by (simp add: dict_has_def dict_keys_def map_of_eq_None_iff)

lemma dict_has_Some: "dict_has d k \<longleftrightarrow> (\<exists>v. map_of d k = Some v)"
  by (simp add: dict_has_def)

lemma dict_item_Some: "map_of d k = Some v \<Longrightarrow> dict_item d k = Inr v"
  by (simp add: dict_item_def)

lemma dict_item_None: "map_of d k = None \<Longrightarrow> dict_item d k = Inl KeyError"
  by (simp add: dict_item_def)

lemma map_of_dict_set: "map_of (dict_set d k v) = (map_of d)(k \<mapsto> v)"
  by (induction d k v rule: dict_set.induct) auto

lemma dict_set_twice: "dict_set (dict_set d k a) k b = dict_set d k b"
  by (induction d k a rule: dict_set.induct) auto

lemma str_get_length: "0 \<le> i \<Longrightarrow> i < int (length s) \<Longrightarrow> str_get s i = Inr [s ! nat i]"
  by (simp add: str_get_def)

lemma str_get_short: "0 \<le> i \<Longrightarrow> str_get s i = Inl e \<Longrightarrow> int (length s) \<le> i"
  by (auto simp: str_get_def split: if_splits)

lemma str_get_single: "str_get s i = Inr ch \<Longrightarrow> \<exists>c. ch = [c]"
  by (auto simp: str_get_def split: if_splits)

section \<open>Facts about the tables\<close>

lemma groups_keys: "dict_keys GROUPS = dict_keys CATEGORIES"
  by (simp add: dict_keys_def GROUPS_def CATEGORIES_def)

lemma category_has_groups:
  assumes "dict_has CATEGORIES c"
  shows "\<exists>d gs. map_of CATEGORIES c = Some d \<and> map_of GROUPS c = Some gs"
proof -
  from assms have "dict_has GROUPS c" by (simp add: dict_has_keys groups_keys)
  with assms show ?thesis by (auto simp: dict_has_Some)
qed

lemma group_of_category:
  assumes "dict_has (dict_get GROUPS c []) g"
  shows "\<exists>gs d. map_of GROUPS c = Some gs \<and> map_of gs g = Some d"
  using assms by (auto simp: dict_get_def dict_has_def split: option.splits)

lemma attributes_cases:
  assumes "map_of ATTRIBUTES cg = Some rules"
  shows "rules \<in> {ATTRIBUTES_ES, ATTRIBUTES_EU, ATTRIBUTES_EF, ATTRIBUTES_DB, ATTRIBUTES_DT,
                   ATTRIBUTES_OC, ATTRIBUTES_OP, ATTRIBUTES_FF, ATTRIBUTES_SI}"
  using map_of_SomeD [OF assms] by (auto simp: ATTRIBUTES_def)

lemma rules_complete:
  assumes "rules \<in> {ATTRIBUTES_ES, ATTRIBUTES_EU, ATTRIBUTES_EF, ATTRIBUTES_DB, ATTRIBUTES_DT,
                   ATTRIBUTES_OC, ATTRIBUTES_OP, ATTRIBUTES_FF, ATTRIBUTES_SI}"
    and "p \<in> {3, 4, 5, 6}"
  shows "\<exists>opts. map_of rules p = Some opts \<and> opts \<noteq> [] \<and> dict_has opts (lit ''X'')"
  using assms
  by (auto simp: ATTRIBUTES_ES_def ATTRIBUTES_EU_def ATTRIBUTES_EF_def ATTRIBUTES_DB_def
      ATTRIBUTES_DT_def ATTRIBUTES_OC_def ATTRIBUTES_OP_def ATTRIBUTES_FF_def ATTRIBUTES_SI_def
      dict_has_def lit_def)

lemma attributes_complete:
  assumes "map_of ATTRIBUTES cg = Some rules" and "3 \<le> p" and "p \<le> 6"
  shows "\<exists>opts. map_of rules p = Some opts \<and> opts \<noteq> [] \<and> dict_has opts (lit ''X'')"
proof -
  from assms(2,3) have "p \<in> {3, 4, 5, 6}" by auto
  with attributes_cases [OF assms(1)] show ?thesis by (rule rules_complete)
qed

lemma prepare_loop: "for_loop prepare_step (py_range 1 7) [] = Inr (Next prepared)"
  by (simp add: py_range_1_7 prepare_step_def prepared_def POSITION_DESCRIPTIONS_def dict_item_def)

lemma prepared_unresolved: "1 \<le> j \<Longrightarrow> j \<le> 6 \<Longrightarrow> entry_unresolved prepared j"
proof -
  assume "1 \<le> j" "j \<le> 6"
  then have "j \<in> {1, 2, 3, 4, 5, 6}" by auto
  then show ?thesis
    by (auto simp: entry_unresolved_def prepared_def POSITION_DESCRIPTIONS_def)
qed

lemma resolved_before_prepared: "resolved_before t 1 prepared"
  by (auto simp: resolved_before_def prepared_unresolved)


section \<open>The position checks of the detailed validator\<close>

lemma set_entry_eq: "map_of p i = Some e \<Longrightarrow> set_entry p i f = Inr (dict_set p i (f e))"
  by (simp add: set_entry_def dict_item_Some)

lemma accept_eq:
  assumes "map_of p i = Some e"
  shows "accept p i m = Inr (Next (dict_set p i (e\<lparr>meaning := Some m, valid := Some True\<rparr>)))"
  using assms by (simp add: accept_def set_entry_eq map_of_dict_set dict_set_twice)

lemma reject_eq:
  assumes "map_of p i = Some e"
  shows "reject p i msg =
           Inr (Return (False, msg, dict_set p i (e\<lparr>valid := Some False, error := Some msg\<rparr>)))"
  using assms
  by (simp add: reject_def set_entry_eq map_of_dict_set dict_set_twice get_error_def dict_item_Some)

lemma resolved_before_entry:
  assumes "resolved_before t k p" and "1 \<le> k" and "k \<le> 6"
  shows "\<exists>e. map_of p k = Some e \<and> val e = None \<and> meaning e = None \<and> valid e = None
              \<and> error e = None"
proof -
  from assms have "entry_unresolved p k" by (simp add: resolved_before_def)
  then show ?thesis by (auto simp: entry_unresolved_def split: option.splits)
qed

lemma resolved_before_step:
  assumes "resolved_before t k p" and "1 \<le> k" and "k \<le> 6" and "map_of p k = Some e"
  shows "resolved_before t (k + 1)
           (dict_set p k (e\<lparr>val := Some (char_at t k), meaning := Some m, valid := Some True\<rparr>))"
proof -
  from resolved_before_entry [OF assms(1-3)] assms(4) have "error e = None" by auto
  with assms show ?thesis
    by (auto simp: resolved_before_def entry_resolved_def entry_unresolved_def entry_value_def
        map_of_dict_set)
qed

lemma fails_at_step:
  assumes "resolved_before t k p" and "1 \<le> k" and "k \<le> 6" and "map_of p k = Some e"
  shows "fails_at (dict_set p k (e\<lparr>val := Some (char_at t k), valid := Some False,
                                   error := Some msg\<rparr>)) msg k"
    and "values_recorded t k (dict_set p k (e\<lparr>val := Some (char_at t k), valid := Some False,
                                             error := Some msg\<rparr>))"
  using assms
  by (auto simp: resolved_before_def fails_at_def entry_failed_def entry_resolved_def
      entry_unresolved_def entry_value_def values_recorded_def map_of_dict_set set_py_range)

text \<open>Setting the value and accepting, or setting the value and rejecting.\<close>

lemma value_then_accept:
  assumes "resolved_before t k p" and "1 \<le> k" and "k \<le> 6"
  shows "\<exists>p'. bindE (set_entry p k (\<lambda>entry. entry\<lparr>val := Some (char_at t k)\<rparr>))
                  (\<lambda>q. accept q k m)
                 = Inr (Next p') \<and> resolved_before t (k + 1) p'"
proof -
  let ?c = "char_at t k"
  from resolved_before_entry [OF assms] obtain e where e: "map_of p k = Some e" by blast
  have "bindE (set_entry p k (\<lambda>entry. entry\<lparr>val := Some ?c\<rparr>)) (\<lambda>q. accept q k m)
          = Inr (Next (dict_set p k (e\<lparr>val := Some ?c, meaning := Some m, valid := Some True\<rparr>)))"
    using e accept_eq [of "dict_set p k (e\<lparr>val := Some ?c\<rparr>)" k "e\<lparr>val := Some ?c\<rparr>" m]
    by (simp add: set_entry_eq map_of_dict_set dict_set_twice)
  with resolved_before_step [OF assms e] show ?thesis by blast
qed

lemma value_then_reject:
  assumes "resolved_before t k p" and "1 \<le> k" and "k \<le> 6"
  shows "\<exists>p'. bindE (set_entry p k (\<lambda>entry. entry\<lparr>val := Some (char_at t k)\<rparr>))
                  (\<lambda>q. reject q k msg)
                 = Inr (Return (False, msg, p')) \<and> fails_at p' msg k \<and> values_recorded t k p'"
proof -
  let ?c = "char_at t k"
  from resolved_before_entry [OF assms] obtain e where e: "map_of p k = Some e" by blast
  have "bindE (set_entry p k (\<lambda>entry. entry\<lparr>val := Some ?c\<rparr>)) (\<lambda>q. reject q k msg)
          = Inr (Return (False, msg,
              dict_set p k (e\<lparr>val := Some ?c, valid := Some False, error := Some msg\<rparr>)))"
    using e reject_eq [of "dict_set p k (e\<lparr>val := Some ?c\<rparr>)" k "e\<lparr>val := Some ?c\<rparr>" msg]
    by (simp add: set_entry_eq map_of_dict_set dict_set_twice)
  with fails_at_step [OF assms e] show ?thesis by blast
qed

text \<open>The characters that the validators read.\<close>

lemma str_get_char_at:
  assumes "0 \<le> i" and "str_get t i = Inr ch"
  shows "ch = char_at t (i + 1)"
proof -
  from assms have lt: "nat i < length t" and ch: "ch = [t ! nat i]"
    by (auto simp: str_get_def split: if_splits)
  from lt have "take 1 (drop (nat i) t) = [t ! nat i]"
    by (simp add: take_Suc_conv_app_nth)
  with ch show ?thesis by (simp add: char_at_def)
qed

lemma pair_char_at:
  assumes "str_get t 0 = Inr c" and "str_get t 1 = Inr g"
  shows "c = char_at t 1" and "g = char_at t 2"
  using str_get_char_at [of 0 t c] str_get_char_at [of 1 t g] assms by simp_all


section \<open>The two validators, check by check\<close>

lemma position_1:
  "position_ok U t 1 = dict_has CATEGORIES (char_at t 1)"
  "expected_message t 1 = msg_category (char_at t 1)"
  by (simp_all add: position_ok_def expected_message_def)

lemma position_2:
  "position_ok U t 2 = dict_has (dict_get GROUPS (char_at t 1) []) (char_at t 2)"
  "expected_message t 2
     = msg_group (char_at t 2) (char_at t 1) (dict_keys (dict_get GROUPS (char_at t 1) []))"
  by (simp_all add: position_ok_def expected_message_def)

lemma position_defined:
  assumes "3 \<le> k" and "map_of ATTRIBUTES (char_at t 1 @ char_at t 2) = Some rules"
    and "map_of rules k = Some opts"
  shows "position_ok U t k = dict_has opts (char_at t k)"
    and "expected_message t k
           = msg_attribute (char_at t k) k (char_at t 1 @ char_at t 2) (dict_keys opts)"
  using assms by (simp_all add: position_ok_def expected_message_def)

lemma position_undefined:
  assumes "3 \<le> k" and "map_of ATTRIBUTES (char_at t 1 @ char_at t 2) = None"
  shows "position_ok U t k = str_isalpha U (char_at t k)"
    and "expected_message t k = msg_position_alpha k"
  using assms by (simp_all add: position_ok_def expected_message_def)

lemma check_category_rel:
  assumes "resolved_before t 1 p"
  shows "outcome_rel U t 1 (check_category (char_at t 1) p)
           (if \<not> dict_has CATEGORIES (char_at t 1)
            then Inr (Return (False, msg_category (char_at t 1)))
            else Inr (Next ()))"
proof (cases "dict_has CATEGORIES (char_at t 1)")
  case True
  then obtain d where d: "map_of CATEGORIES (char_at t 1) = Some d"
    by (auto simp: dict_has_Some)
  have "check_category (char_at t 1) p
          = bindE (set_entry p 1 (\<lambda>entry. entry\<lparr>val := Some (char_at t 1)\<rparr>))
              (\<lambda>q. accept q 1 d)"
    by (simp add: check_category_def True dict_item_Some [OF d])
  with value_then_accept [OF assms(1), of d] True show ?thesis
    by (auto simp: outcome_rel_def position_1)
next
  case False
  have "check_category (char_at t 1) p
          = bindE (set_entry p 1 (\<lambda>entry. entry\<lparr>val := Some (char_at t 1)\<rparr>))
              (\<lambda>q. reject q 1 (msg_category (char_at t 1)))"
    by (simp add: check_category_def False)
  with value_then_reject [OF assms(1), of "msg_category (char_at t 1)"] False show ?thesis
    by (auto simp: outcome_rel_def failure_at_def position_1)
qed

lemma check_group_rel:
  assumes "resolved_before t 2 p" and "dict_has CATEGORIES (char_at t 1)"
  shows "outcome_rel U t 2 (check_group (char_at t 1) (char_at t 2) p)
           (if \<not> dict_has (dict_get GROUPS (char_at t 1) []) (char_at t 2) then
              bindE (dict_item GROUPS (char_at t 1)) (\<lambda>groups.
                Inr (Return (False, msg_group (char_at t 2) (char_at t 1) (dict_keys groups))))
            else Inr (Next ()))"
proof (cases "dict_has (dict_get GROUPS (char_at t 1) []) (char_at t 2)")
  case True
  from group_of_category [OF True] obtain gs d
    where gs: "map_of GROUPS (char_at t 1) = Some gs"
      and d: "map_of gs (char_at t 2) = Some d" by blast
  have "check_group (char_at t 1) (char_at t 2) p
          = bindE (set_entry p 2 (\<lambda>entry. entry\<lparr>val := Some (char_at t 2)\<rparr>))
              (\<lambda>q. accept q 2 d)"
    by (simp add: check_group_def True dict_item_Some [OF gs] dict_item_Some [OF d])
  with value_then_accept [OF assms(1), of d] True show ?thesis
    by (auto simp: outcome_rel_def position_2)
next
  case False
  from category_has_groups [OF assms(2)] obtain gs
    where gs: "map_of GROUPS (char_at t 1) = Some gs" by blast
  then have get: "dict_get GROUPS (char_at t 1) [] = gs" by (simp add: dict_get_def)
  let ?msg = "msg_group (char_at t 2) (char_at t 1) (dict_keys gs)"
  have "check_group (char_at t 1) (char_at t 2) p
          = bindE (set_entry p 2 (\<lambda>entry. entry\<lparr>val := Some (char_at t 2)\<rparr>))
              (\<lambda>q. reject q 2 ?msg)"
    by (simp add: check_group_def False dict_item_Some [OF gs])
  moreover have "\<not> position_ok U t 2" using False by (simp add: position_2)
  moreover have "?msg = expected_message t 2" by (simp add: position_2 get)
  ultimately show ?thesis
    using value_then_reject [OF assms(1), of ?msg] False gs
    by (auto simp: outcome_rel_def failure_at_def dict_item_Some)
qed

lemma attribute_step_rel:
  assumes "resolved_before t (pos + 1) p" and "2 \<le> pos" and "pos \<le> 5"
    and "dict_has ATTRIBUTES (char_at t 1 @ char_at t 2)"
  shows "outcome_rel U t (pos + 1)
           (attribute_step_detailed U t (char_at t 1 @ char_at t 2) pos p)
           (attribute_step U t (char_at t 1 @ char_at t 2) pos ())"
    (is "outcome_rel U t (pos + 1) (attribute_step_detailed U t ?cg pos p) _")
proof (cases "str_get t pos")
  case (Inl e)
  with assms(2,3) str_get_short [of pos t e] show ?thesis
    by (simp add: attribute_step_detailed_def attribute_step_def outcome_rel_def)
next
  case (Inr ch0)
  let ?ch = "char_at t (pos + 1)"
  from assms(2) str_get_char_at [OF _ Inr] Inr have get: "str_get t pos = Inr ?ch" by simp
  from assms(4) obtain rules where rules: "map_of ATTRIBUTES ?cg = Some rules"
    by (auto simp: dict_has_Some)
  from attributes_complete [OF rules, of "pos + 1"] assms(2,3)
  obtain opts where opts: "map_of rules (pos + 1) = Some opts" by auto
  then have has: "dict_has rules (pos + 1)" by (simp add: dict_has_def)
  from assms(2,3) have k: "1 \<le> pos + 1" "pos + 1 \<le> 6" "3 \<le> pos + 1" by auto
  note ok = position_defined(1) [OF k(3) rules opts, of U]
  note msg = position_defined(2) [OF k(3) rules opts]
  show ?thesis
  proof (cases "?ch \<in> set (dict_keys opts)")
    case True
    then obtain m where m: "map_of opts ?ch = Some m"
      by (auto simp: dict_has_keys [symmetric] dict_has_Some)
    have "attribute_step_detailed U t ?cg pos p
            = bindE (set_entry p (pos + 1) (\<lambda>entry. entry\<lparr>val := Some ?ch\<rparr>))
                (\<lambda>q. accept q (pos + 1) m)"
      by (simp add: attribute_step_detailed_def Let_def get dict_item_Some [OF rules] has
          dict_item_Some [OF opts] True dict_item_Some [OF m])
    moreover have "attribute_step U t ?cg pos () = Inr (Next ())"
      by (simp add: attribute_step_def Let_def get dict_item_Some [OF rules] has
          dict_item_Some [OF opts] True)
    moreover from True have "position_ok U t (pos + 1)"
      by (simp add: ok dict_has_keys)
    ultimately show ?thesis
      using value_then_accept [OF assms(1) k(1,2), of m] by (auto simp: outcome_rel_def)
  next
    case False
    let ?msg = "msg_attribute ?ch (pos + 1) ?cg (dict_keys opts)"
    have "attribute_step_detailed U t ?cg pos p
            = bindE (set_entry p (pos + 1) (\<lambda>entry. entry\<lparr>val := Some ?ch\<rparr>))
                (\<lambda>q. reject q (pos + 1) ?msg)"
      by (simp add: attribute_step_detailed_def Let_def get dict_item_Some [OF rules] has
          dict_item_Some [OF opts] False)
    moreover have "attribute_step U t ?cg pos () = Inr (Return (False, ?msg))"
      by (simp add: attribute_step_def Let_def get dict_item_Some [OF rules] has
          dict_item_Some [OF opts] False)
    moreover from False have "\<not> position_ok U t (pos + 1)"
      by (simp add: ok dict_has_keys)
    moreover have "?msg = expected_message t (pos + 1)"
      by (simp add: msg)
    ultimately show ?thesis
      using value_then_reject [OF assms(1) k(1,2), of ?msg]
      by (auto simp: outcome_rel_def failure_at_def)
  qed
qed

lemma alphabetic_step_rel:
  assumes "resolved_before t (i + 1) p" and "2 \<le> i" and "i \<le> 5"
    and "\<not> dict_has ATTRIBUTES (char_at t 1 @ char_at t 2)"
  shows "outcome_rel U t (i + 1) (alphabetic_step_detailed U t i p)
           (alphabetic_step U t i ())"
proof (cases "str_get t i")
  case (Inl e)
  with assms(2,3) str_get_short [of i t e] show ?thesis
    by (simp add: alphabetic_step_detailed_def alphabetic_step_def outcome_rel_def)
next
  case (Inr ch0)
  let ?ch = "char_at t (i + 1)"
  from assms(2) str_get_char_at [OF _ Inr] Inr have get: "str_get t i = Inr ?ch" by simp
  from assms(2,3) have k: "1 \<le> i + 1" "i + 1 \<le> 6" "3 \<le> i + 1" by auto
  from assms(4) have none: "map_of ATTRIBUTES (char_at t 1 @ char_at t 2) = None"
    by (simp add: dict_has_def)
  note ok = position_undefined(1) [OF k(3) none, of U]
  note msg = position_undefined(2) [OF k(3) none]
  show ?thesis
  proof (cases "str_isalpha U ?ch")
    case True
    let ?m = "if ?ch = lit ''X'' then msg_not_applicable else msg_custom"
    have "alphabetic_step_detailed U t i p
            = bindE (set_entry p (i + 1) (\<lambda>entry. entry\<lparr>val := Some ?ch\<rparr>))
                (\<lambda>q. accept q (i + 1) ?m)"
      by (simp add: alphabetic_step_detailed_def Let_def get True)
    moreover have "alphabetic_step U t i () = Inr (Next ())"
      by (simp add: alphabetic_step_def Let_def get True)
    moreover from True have "position_ok U t (i + 1)" by (simp add: ok)
    ultimately show ?thesis
      using value_then_accept [OF assms(1) k(1,2), of ?m] by (auto simp: outcome_rel_def)
  next
    case False
    let ?msg = "msg_position_alpha (i + 1)"
    have "alphabetic_step_detailed U t i p
            = bindE (set_entry p (i + 1) (\<lambda>entry. entry\<lparr>val := Some ?ch\<rparr>))
                (\<lambda>q. reject q (i + 1) ?msg)"
      by (simp add: alphabetic_step_detailed_def Let_def get False)
    moreover have "alphabetic_step U t i () = Inr (Return (False, ?msg))"
      by (simp add: alphabetic_step_def Let_def get False)
    moreover from False have "\<not> position_ok U t (i + 1)" by (simp add: ok)
    ultimately show ?thesis
      using value_then_reject [OF assms(1) k(1,2), of ?msg]
      by (auto simp: outcome_rel_def failure_at_def msg)
  qed
qed

lemma loop_rel_weaken:
  assumes "loop_rel U t (k + 1) d c" and "position_ok U t k"
  shows "loop_rel U t k d c"
proof (cases d)
  case (Inl e)
  with assms show ?thesis by (simp add: loop_rel_def)
next
  case (Inr f)
  show ?thesis
  proof (cases f)
    case (Next q)
    with assms Inr have c: "c = Inr (Next ())" "resolved_before t 7 q"
      and ok: "\<forall>i. k + 1 \<le> i \<and> i \<le> 6 \<longrightarrow> position_ok U t i"
      by (simp_all add: loop_rel_def)
    have "\<forall>i. k \<le> i \<and> i \<le> 6 \<longrightarrow> position_ok U t i"
    proof (intro allI impI)
      fix i
      assume "k \<le> i \<and> i \<le> 6"
      then have "i = k \<or> (k + 1 \<le> i \<and> i \<le> 6)" by auto
      with ok assms(2) show "position_ok U t i" by blast
    qed
    with c show ?thesis by (simp add: loop_rel_def Inr Next)
  next
    case (Return r)
    obtain b m q where r: "r = (b, m, q)" by (cases r)
    from assms Inr Return r obtain j
      where j: "k + 1 \<le> j" "j \<le> 6" "failure_at U t j m q"
        and ok: "\<forall>i. k + 1 \<le> i \<and> i < j \<longrightarrow> position_ok U t i"
        and c: "c = Inr (Return (b, m))" "\<not> b"
      by (auto simp: loop_rel_def)
    have "\<forall>i. k \<le> i \<and> i < j \<longrightarrow> position_ok U t i"
    proof (intro allI impI)
      fix i
      assume "k \<le> i \<and> i < j"
      then have "i = k \<or> (k + 1 \<le> i \<and> i < j)" by auto
      with ok assms(2) show "position_ok U t i" by blast
    qed
    with j have "\<exists>j. k \<le> j \<and> j \<le> 6 \<and> (\<forall>i. k \<le> i \<and> i < j \<longrightarrow> position_ok U t i)
                   \<and> failure_at U t j m q"
      by (intro exI [of _ j]) simp
    with c show ?thesis by (simp add: loop_rel_def Inr Return r)
  qed
qed

lemma for_loop_rel:
  assumes step: "\<And>x q. 2 \<le> x \<Longrightarrow> x \<le> 5 \<Longrightarrow> resolved_before t (x + 1) q
                   \<Longrightarrow> outcome_rel U t (x + 1) (D x q) (C x ())"
  shows "2 \<le> x \<Longrightarrow> resolved_before t (x + 1) p
           \<Longrightarrow> loop_rel U t (x + 1) (for_loop D [x..5] p) (for_loop C [x..5] ())"
proof (induction "nat (6 - x)" arbitrary: x p)
  case 0
  then have "[x..5] = []" and "6 \<le> x" by auto
  with 0 show ?case
    by (auto simp: loop_rel_def resolved_before_def)
next
  case (Suc n)
  then have x: "2 \<le> x" "x \<le> 5" by auto
  then have unfold: "[x..5] = x # [x + 1..5]" by (simp add: upto_rec1)
  from step [OF x Suc.prems(2)] have rel: "outcome_rel U t (x + 1) (D x p) (C x ())" .
  show ?case
  proof (cases "D x p")
    case (Inl e)
    with rel show ?thesis by (auto simp: outcome_rel_def loop_rel_def unfold)
  next
    case (Inr f)
    show ?thesis
    proof (cases f)
      case (Return r)
      obtain b m q where r: "r = (b, m, q)" by (cases r)
      from rel Inr Return r have c: "C x () = Inr (Return (b, m))" "\<not> b"
        and f: "failure_at U t (x + 1) m q"
        by (auto simp: outcome_rel_def)
      from f x have "\<exists>j. x + 1 \<le> j \<and> j \<le> 6
          \<and> (\<forall>i. x + 1 \<le> i \<and> i < j \<longrightarrow> position_ok U t i) \<and> failure_at U t j m q"
        by (intro exI [of _ "x + 1"]) auto
      with c Inr Return r show ?thesis by (simp add: loop_rel_def unfold)
    next
      case (Next q)
      with rel Inr have c: "C x () = Inr (Next ())" and q: "resolved_before t (x + 1 + 1) q"
        and ok: "position_ok U t (x + 1)"
        by (auto simp: outcome_rel_def)
      from Suc.hyps(2) have "n = nat (6 - (x + 1))" by auto
      from Suc.hyps(1) [OF this _ q] x
      have "loop_rel U t (x + 1 + 1) (for_loop D [x + 1..5] q) (for_loop C [x + 1..5] ())"
        by simp
      then have "loop_rel U t (x + 1) (for_loop D [x + 1..5] q) (for_loop C [x + 1..5] ())"
        using ok by (rule loop_rel_weaken)
      with Inr Next c show ?thesis by (simp add: unfold)
    qed
  qed
qed


section \<open>The two validators as a whole\<close>

lemma outcome_rel_Return:
  assumes "outcome_rel U t k d (Inr (Return (b, m)))"
  shows "\<exists>p'. d = Inr (Return (b, m, p')) \<and> \<not> b \<and> failure_at U t k m p'"
  using assms by (auto simp: outcome_rel_def split: sum.splits flow.splits)

lemma outcome_rel_Next:
  assumes "outcome_rel U t k d (Inr (Next ()))"
  shows "\<exists>p'. d = Inr (Next p') \<and> resolved_before t (k + 1) p' \<and> position_ok U t k"
  using assms by (auto simp: outcome_rel_def split: sum.splits flow.splits)

lemma valid_results:
  assumes "dict_has CATEGORIES c" and "dict_has (dict_get GROUPS c []) g"
  shows "\<exists>m. valid_result c g = Inr (True, m) \<and> (\<forall>q. valid_result_detailed c g q = Inr (True, m, q))"
proof -
  from assms(1) obtain d where d: "map_of CATEGORIES c = Some d" by (auto simp: dict_has_Some)
  from group_of_category [OF assms(2)] obtain gs gd
    where gs: "map_of GROUPS c = Some gs" and gd: "map_of gs g = Some gd" by blast
  show ?thesis
    by (simp add: valid_result_def valid_result_detailed_def dict_item_Some [OF d]
        dict_item_Some [OF gs] dict_item_Some [OF gd])
qed

lemma loops_rel:
  assumes "resolved_before t 3 p"
  shows "loop_rel U t 3
           (if dict_has ATTRIBUTES (char_at t 1 @ char_at t 2)
            then for_loop (attribute_step_detailed U t (char_at t 1 @ char_at t 2))
                   (py_range 2 6) p
            else for_loop (alphabetic_step_detailed U t) (py_range 2 6) p)
           (if dict_has ATTRIBUTES (char_at t 1 @ char_at t 2)
            then for_loop (attribute_step U t (char_at t 1 @ char_at t 2)) (py_range 2 6) ()
            else for_loop (alphabetic_step U t) (py_range 2 6) ())"
proof -
  let ?cg = "char_at t 1 @ char_at t 2"
  have r: "py_range 2 6 = [2..5]" by (simp add: py_range_def)
  from assms have p: "resolved_before t (2 + 1) p" by simp
  show ?thesis
  proof (cases "dict_has ATTRIBUTES ?cg")
    case True
    have "loop_rel U t (2 + 1) (for_loop (attribute_step_detailed U t ?cg) [2..5] p)
            (for_loop (attribute_step U t ?cg) [2..5] ())"
    proof (rule for_loop_rel)
      fix x q
      assume "2 \<le> x" "x \<le> 5" "resolved_before t (x + 1) q"
      then show "outcome_rel U t (x + 1) (attribute_step_detailed U t ?cg x q)
                   (attribute_step U t ?cg x ())"
        by (intro attribute_step_rel True)
    qed (use p in simp_all)
    with True show ?thesis by (simp add: r)
  next
    case False
    have "loop_rel U t (2 + 1) (for_loop (alphabetic_step_detailed U t) [2..5] p)
            (for_loop (alphabetic_step U t) [2..5] ())"
    proof (rule for_loop_rel)
      fix x q
      assume "2 \<le> x" "x \<le> 5" "resolved_before t (x + 1) q"
      then show "outcome_rel U t (x + 1) (alphabetic_step_detailed U t x q)
                   (alphabetic_step U t x ())"
        by (intro alphabetic_step_rel False)
    qed (use p in simp_all)
    with False show ?thesis by (simp add: r)
  qed
qed

lemma attributes_rel:
  assumes "resolved_before t 3 p" and "position_ok U t 1" and "position_ok U t 2"
  shows "result_rel U t
           (bindE (if dict_has ATTRIBUTES (char_at t 1 @ char_at t 2)
                   then for_loop (attribute_step_detailed U t (char_at t 1 @ char_at t 2))
                          (py_range 2 6) p
                   else for_loop (alphabetic_step_detailed U t) (py_range 2 6) p)
              (\<lambda>r3. case r3 of Return res \<Rightarrow> Inr res
                     | Next q \<Rightarrow> valid_result_detailed (char_at t 1) (char_at t 2) q))
           (bindE (if dict_has ATTRIBUTES (char_at t 1 @ char_at t 2)
                   then for_loop (attribute_step U t (char_at t 1 @ char_at t 2))
                          (py_range 2 6) ()
                   else for_loop (alphabetic_step U t) (py_range 2 6) ())
              (\<lambda>r. case r of Return res \<Rightarrow> Inr res
                    | Next u \<Rightarrow> valid_result (char_at t 1) (char_at t 2)))"
    (is "result_rel U t (bindE ?d ?kd) (bindE ?c ?kc)")
proof -
  have rel: "loop_rel U t 3 ?d ?c" by (rule loops_rel [OF assms(1)])
  from assms(2,3) have "dict_has CATEGORIES (char_at t 1)"
    and "dict_has (dict_get GROUPS (char_at t 1) []) (char_at t 2)"
    by (simp_all add: position_1 position_2)
  from valid_results [OF this] obtain vm
    where vm: "valid_result (char_at t 1) (char_at t 2) = Inr (True, vm)"
              "\<And>q. valid_result_detailed (char_at t 1) (char_at t 2) q = Inr (True, vm, q)"
    by blast
  have low: "\<And>i. 1 \<le> i \<Longrightarrow> i < 3 \<Longrightarrow> position_ok U t i"
  proof -
    fix i :: int
    assume "1 \<le> i" "i < 3"
    then have "i = 1 \<or> i = 2" by auto
    with assms(2,3) show "position_ok U t i" by auto
  qed
  show ?thesis
  proof (cases ?d)
    case (Inl e)
    with rel show ?thesis by (simp add: loop_rel_def result_rel_def)
  next
    case (Inr f)
    show ?thesis
    proof (cases f)
      case (Next q)
      with rel Inr have c: "?c = Inr (Next ())" and q: "resolved_before t 7 q"
        and ok: "\<forall>i. 3 \<le> i \<and> i \<le> 6 \<longrightarrow> position_ok U t i"
        by (simp_all add: loop_rel_def)
      have "\<forall>i. 1 \<le> i \<and> i \<le> 6 \<longrightarrow> position_ok U t i"
      proof (intro allI impI)
        fix i :: int
        assume "1 \<le> i \<and> i \<le> 6"
        then have "(1 \<le> i \<and> i < 3) \<or> (3 \<le> i \<and> i \<le> 6)" by auto
        with ok low show "position_ok U t i" by blast
      qed
      with q have "located U t (True, vm, q)" by (simp add: located_def)
      with Inr Next vm c show ?thesis by (simp add: result_rel_def)
    next
      case (Return r)
      obtain b m q where r: "r = (b, m, q)" by (cases r)
      from rel Inr Return r obtain j
        where c: "?c = Inr (Return (b, m))" "\<not> b"
          and j: "3 \<le> j" "j \<le> 6" "failure_at U t j m q"
          and ok: "\<forall>i. 3 \<le> i \<and> i < j \<longrightarrow> position_ok U t i"
        by (auto simp: loop_rel_def)
      have "\<forall>i. 1 \<le> i \<and> i < j \<longrightarrow> position_ok U t i"
      proof (intro allI impI)
        fix i :: int
        assume "1 \<le> i \<and> i < j"
        then have "(1 \<le> i \<and> i < 3) \<or> (3 \<le> i \<and> i < j)" by auto
        with ok low show "position_ok U t i" by blast
      qed
      with j have "\<exists>j. 1 \<le> j \<and> j \<le> 6 \<and> (\<forall>i. 1 \<le> i \<and> i < j \<longrightarrow> position_ok U t i)
                     \<and> failure_at U t j m q"
        by (intro exI [of _ j]) simp
      with c have "located U t (b, m, q)" by (simp add: located_def)
      with c Inr Return r show ?thesis by (simp add: result_rel_def)
    qed
  qed
qed

lemma group_rel:
  assumes "resolved_before t 2 p" and "position_ok U t 1"
  shows "result_rel U t
           (bindE (str_get t 1) (\<lambda>g.
            bindE (check_group (char_at t 1) g p) (\<lambda>r2.
            case r2 of
              Return res \<Rightarrow> Inr res
            | Next q \<Rightarrow>
                let cg = char_at t 1 @ g in
                bindE (if dict_has ATTRIBUTES cg
                       then for_loop (attribute_step_detailed U t cg) (py_range 2 6) q
                       else for_loop (alphabetic_step_detailed U t) (py_range 2 6) q)
                  (\<lambda>r3. case r3 of Return res \<Rightarrow> Inr res
                         | Next q' \<Rightarrow> valid_result_detailed (char_at t 1) g q'))))
           (bindE (str_get t 1) (\<lambda>g.
            if \<not> dict_has (dict_get GROUPS (char_at t 1) []) g then
              bindE (dict_item GROUPS (char_at t 1)) (\<lambda>groups.
                Inr (False, msg_group g (char_at t 1) (dict_keys groups)))
            else
              let cg = char_at t 1 @ g in
              bindE (if dict_has ATTRIBUTES cg
                     then for_loop (attribute_step U t cg) (py_range 2 6) ()
                     else for_loop (alphabetic_step U t) (py_range 2 6) ())
                (\<lambda>r. case r of Return res \<Rightarrow> Inr res
                      | Next u \<Rightarrow> valid_result (char_at t 1) g)))"
proof (cases "str_get t 1")
  case (Inl e)
  with str_get_short [of 1 t e] show ?thesis by (simp add: result_rel_def)
next
  case (Inr g0)
  from str_get_char_at [OF _ Inr] Inr have get: "str_get t 1 = Inr (char_at t 2)" by simp
  from assms(2) have cat: "dict_has CATEGORIES (char_at t 1)" by (simp add: position_1)
  note rel = check_group_rel [OF assms(1) cat, of U]
  show ?thesis
  proof (cases "dict_has (dict_get GROUPS (char_at t 1) []) (char_at t 2)")
    case True
    with rel
    have "outcome_rel U t 2 (check_group (char_at t 1) (char_at t 2) p) (Inr (Next ()))"
      by simp
    from outcome_rel_Next [OF this] obtain q
      where q: "check_group (char_at t 1) (char_at t 2) p = Inr (Next q)"
               "resolved_before t 3 q" "position_ok U t 2" by auto
    from attributes_rel [OF q(2) assms(2) q(3)] get True q(1)
    show ?thesis by (simp add: Let_def)
  next
    case False
    from category_has_groups [OF cat] obtain gs
      where gs: "map_of GROUPS (char_at t 1) = Some gs" by blast
    let ?msg = "msg_group (char_at t 2) (char_at t 1) (dict_keys gs)"
    from rel False gs
    have "outcome_rel U t 2 (check_group (char_at t 1) (char_at t 2) p)
            (Inr (Return (False, ?msg)))"
      by (simp add: dict_item_Some)
    from outcome_rel_Return [OF this] obtain q
      where q: "check_group (char_at t 1) (char_at t 2) p = Inr (Return (False, ?msg, q))"
               "failure_at U t 2 ?msg q" by auto
    have "\<forall>i::int. 1 \<le> i \<and> i < 2 \<longrightarrow> position_ok U t i"
    proof (intro allI impI)
      fix i :: int
      assume "1 \<le> i \<and> i < 2"
      then have "i = 1" by auto
      with assms(2) show "position_ok U t i" by simp
    qed
    with q(2) have "\<exists>j. 1 \<le> j \<and> j \<le> 6 \<and> (\<forall>i. 1 \<le> i \<and> i < j \<longrightarrow> position_ok U t i)
                      \<and> failure_at U t j ?msg q"
      by (intro exI [of _ 2]) simp
    then have "located U t (False, ?msg, q)" by (simp add: located_def)
    with get False q(1) gs show ?thesis by (simp add: result_rel_def dict_item_Some)
  qed
qed

lemma validate_upper_rel:
  assumes "resolved_before t 1 p"
  shows "result_rel U t (validate_detailed_upper U t p) (validate_upper U t)"
proof (cases "str_get t 0")
  case (Inl e)
  with str_get_short [of 0 t e] show ?thesis
    by (simp add: result_rel_def validate_detailed_upper_def validate_upper_def)
next
  case (Inr c0)
  from str_get_char_at [OF _ Inr] Inr have get: "str_get t 0 = Inr (char_at t 1)" by simp
  note rel = check_category_rel [OF assms, of U]
  show ?thesis
  proof (cases "dict_has CATEGORIES (char_at t 1)")
    case True
    with rel have "outcome_rel U t 1 (check_category (char_at t 1) p) (Inr (Next ()))"
      by simp
    from outcome_rel_Next [OF this] obtain q
      where q: "check_category (char_at t 1) p = Inr (Next q)" "resolved_before t 2 q"
               "position_ok U t 1" by auto
    from group_rel [OF q(2,3)] get True q(1) show ?thesis
      by (simp add: validate_detailed_upper_def validate_upper_def)
  next
    case False
    let ?msg = "msg_category (char_at t 1)"
    from rel False
    have "outcome_rel U t 1 (check_category (char_at t 1) p) (Inr (Return (False, ?msg)))"
      by simp
    from outcome_rel_Return [OF this] obtain q
      where q: "check_category (char_at t 1) p = Inr (Return (False, ?msg, q))"
               "failure_at U t 1 ?msg q" by auto
    from q(2) have "\<exists>j. 1 \<le> j \<and> j \<le> 6 \<and> (\<forall>i. 1 \<le> i \<and> i < j \<longrightarrow> position_ok U t i)
                      \<and> failure_at U t j ?msg q"
      by (intro exI [of _ 1]) auto
    then have "located U t (False, ?msg, q)" by (simp add: located_def)
    with get False q(1) show ?thesis
      by (simp add: result_rel_def validate_detailed_upper_def validate_upper_def)
  qed
qed

text \<open>The first position that is not legal.\<close>

lemma first_offending_None:
  assumes "\<forall>i. 1 \<le> i \<and> i \<le> 6 \<longrightarrow> position_ok U t i"
  shows "first_offending U t = None"
  using assms by (simp add: first_offending_def py_range_1_7)

lemma first_offending_Some:
  assumes "1 \<le> j" and "j \<le> 6" and "\<forall>i. 1 \<le> i \<and> i < j \<longrightarrow> position_ok U t i"
    and "\<not> position_ok U t j"
  shows "first_offending U t = Some j"
proof -
  from assms(1,2) have "j \<in> {1, 2, 3, 4, 5, 6}" by auto
  with assms(3,4) show ?thesis
    by (auto simp: first_offending_def py_range_1_7)
qed

lemma resolved_all:
  assumes "resolved_before t 7 p"
  shows "\<forall>i \<in> set (py_range 1 7). entry_resolved p i" and "values_recorded t 6 p"
  using assms by (auto simp: resolved_before_def values_recorded_def set_py_range)

lemma located_decomposition:
  assumes "located U t (b, m, p)"
  shows "case first_offending U t of
           None \<Rightarrow> b \<and> (\<forall>i \<in> set (py_range 1 7). entry_resolved p i) \<and> values_recorded t 6 p
         | Some k \<Rightarrow> \<not> b \<and> m = expected_message t k \<and> fails_at p m k \<and> values_recorded t k p"
proof (cases b)
  case True
  with assms have ok: "\<forall>i. 1 \<le> i \<and> i \<le> 6 \<longrightarrow> position_ok U t i"
    and r: "resolved_before t 7 p" by (simp_all add: located_def)
  from first_offending_None [OF ok] resolved_all [OF r] True show ?thesis by simp
next
  case False
  with assms obtain j where j: "1 \<le> j" "j \<le> 6"
    "\<forall>i. 1 \<le> i \<and> i < j \<longrightarrow> position_ok U t i" "failure_at U t j m p"
    by (auto simp: located_def)
  from j(4) have "\<not> position_ok U t j" by (simp add: failure_at_def)
  from first_offending_Some [OF j(1-3) this] j(4) False show ?thesis
    by (auto simp: failure_at_def)
qed

text \<open>The two validators on every input.\<close>

lemma validate_raises:
  assumes "truthy v = Inl e"
  shows "validate U v = Inl e" and "validate_detailed U v = Inl e"
  using assms by (simp_all add: validate_def validate_detailed_def prepare_loop)

lemma validate_whole_string:
  assumes "truthy v = Inr b" and "normalized U v = None"
  shows "validate U v = Inr (False, whole_string_message v)"
    and "validate_detailed U v = Inr (False, whole_string_message v, prepared)"
  using assms
  by (cases v; auto simp: validate_def validate_detailed_def prepare_loop normalized_def
      whole_string_message_def split: if_splits)+

lemma validate_positions:
  assumes "normalized U v = Some t"
  shows "result_rel U t (validate_detailed U v) (validate U v)"
proof -
  from assms obtain s where v: "v = PyStr s" and s: "length s = 6" "str_isalpha U s"
    and t: "t = str_upper U s"
    by (cases v) (auto simp: normalized_def split: if_splits)
  from s(1) have "s \<noteq> []" by auto
  with v s t validate_upper_rel [of t prepared U, OF resolved_before_prepared] show ?thesis
    by (simp add: validate_def validate_detailed_def prepare_loop)
qed

lemma truthy_cases:
  obtains e where "truthy v = Inl e" | b where "truthy v = Inr b"
  by (cases "truthy v") auto

lemma validate_compact_of: "validate U v = compact_of (validate_detailed U v)"
proof (rule truthy_cases [of v])
  fix e
  assume "truthy v = Inl e"
  from validate_raises [OF this, of U] show ?thesis by (simp add: compact_of_def)
next
  fix b
  assume b: "truthy v = Inr b"
  show ?thesis
  proof (cases "normalized U v")
    case None
    from validate_whole_string [OF b None] show ?thesis by (simp add: compact_of_def)
  next
    case (Some t)
    from validate_positions [OF Some] show ?thesis
      by (auto simp: result_rel_def compact_of_def split: sum.splits)
  qed
qed

lemma str_upper_length:
  assumes "unicode_ok U"
  shows "length s \<le> length (str_upper U s)"
proof (induction s)
  case Nil
  show ?case by (simp add: str_upper_def)
next
  case (Cons c s)
  from assms have "char_upper U c \<noteq> []" by (simp add: char_upper_def unicode_ok_def)
  then have "1 \<le> length (char_upper U c)" by (cases "char_upper U c") simp_all
  with Cons show ?case by (simp add: str_upper_def)
qed

lemma validate_detailed_total:
  assumes "unicode_ok U" and "truthy v = Inr b"
  shows "\<exists>r. validate_detailed U v = Inr r \<and> decomposition_ok U v r"
proof (cases "normalized U v")
  case None
  from validate_whole_string(2) [OF assms(2) None] None show ?thesis
    by (auto simp: decomposition_ok_def set_py_range prepared_unresolved)
next
  case (Some t)
  then obtain s where "length s = 6" and t: "t = str_upper U s"
    by (cases v) (auto simp: normalized_def split: if_splits)
  with str_upper_length [OF assms(1), of s] have long: "\<not> length t < 6" by simp
  note rel = validate_positions [OF Some]
  show ?thesis
  proof (cases "validate_detailed U v")
    case (Inl e)
    with rel long show ?thesis by (simp add: result_rel_def)
  next
    case (Inr r)
    obtain ok m p where r: "r = (ok, m, p)" by (cases r)
    from rel Inr r have "located U t (ok, m, p)" by (simp add: result_rel_def)
    from located_decomposition [OF this] Some r have "decomposition_ok U v r"
      by (simp add: decomposition_ok_def)
    with Inr show ?thesis by blast
  qed
qed


section \<open>Concrete evaluations\<close>

lemmas table_defs =
  CATEGORIES_def GROUPS_def GROUPS_E_def ATTRIBUTES_def ATTRIBUTES_ES_def

lemmas string_defs =
  lit_def apostrophe_def str_isalpha_def char_isalpha_def ascii_isupper_def ascii_islower_def
  str_upper_def char_upper_def str_get_def str_int_def digits.simps

lemmas dict_defs = dict_has_def dict_get_def dict_item_def dict_keys_def

lemma zzzzzz_compact:
  "validate U (PyStr (lit ''ZZZZZZ'')) = Inr (False, msg_category (lit ''Z''))"
  by (simp add: validate_def validate_upper_def CATEGORIES_def string_defs dict_defs)

lemma zzzzzz_display:
  "display_cfi_details U (lit ''ZZZZZZ'') =
     ([[10] @ lit ''CFI Code: ZZZZZZ'', lit ''======================'',
       lit ''Category (1st): Z - Unknown'', lit ''Group (2nd): Z - Unknown'',
       lit ''Attribute 3: Z'', lit ''Attribute 4: Z'', lit ''Attribute 5: Z'',
       lit ''Attribute 6: Z''], None)"
  by (simp add: display_cfi_details_def display_plain_def display_unlisted_def
      with_value_def then_do_def print_line_def nothing_def py_range_2_6
      CATEGORIES_def GROUPS_def ATTRIBUTES_def string_defs dict_defs)

lemma z_not_category: "\<not> dict_has CATEGORIES (lit ''Z'')"
  by (simp add: CATEGORIES_def lit_def dict_has_def)

lemma get_position_options_unknown:
  assumes "\<not> opt_in category CATEGORIES"
  shows "get_position_options category g 2 = Inr []"
  using assms by (simp add: get_position_options_def)

lemma display_invalid:
  assumes "validate U c = Inr (False, m)"
  shows "display_cfi_details_detailed U c
           = ([[10] @ cross_mark @ lit '' Invalid CFI code: '' @ m], None)"
proof -
  from assms obtain p where "validate_detailed U c = Inr (False, m, p)"
    by (auto simp: validate_compact_of compact_of_def split: sum.splits)
  then show ?thesis
    by (simp add: display_cfi_details_detailed_def with_value_def print_line_def)
qed


section \<open>Case folding of ASCII letters\<close>

lemma char_upper_letter:
  assumes "ascii_isupper c \<or> ascii_islower c"
  shows "char_upper U c = [if ascii_islower c then c - 32 else c]"
  using assms by (auto simp: char_upper_def ascii_isupper_def ascii_islower_def)

lemma str_upper_letters:
  assumes "ascii_letters s"
  shows "str_upper U s = map (\<lambda>c. if ascii_islower c then c - 32 else c) s"
  using assms
  by (induction s) (simp_all add: str_upper_def ascii_letters_def char_upper_letter)

lemma str_lower_letters:
  assumes "ascii_letters s"
  shows "str_lower U s = map (\<lambda>c. if ascii_isupper c then c + 32 else c) s"
proof -
  from assms have "list_all (\<lambda>c. c < 128) s"
    by (auto simp: ascii_letters_def list_all_iff ascii_isupper_def ascii_islower_def)
  then show ?thesis by (simp add: str_lower_def)
qed

lemma ascii_letters_upper:
  assumes "ascii_letters s"
  shows "ascii_letters (str_upper U s)"
  using assms
  by (auto simp: str_upper_letters ascii_letters_def list_all_iff ascii_isupper_def
      ascii_islower_def)

lemma ascii_letters_lower:
  assumes "ascii_letters s"
  shows "ascii_letters (str_lower U s)"
  using assms
  by (auto simp: str_lower_letters ascii_letters_def list_all_iff ascii_isupper_def
      ascii_islower_def)

lemma str_upper_upper:
  assumes "ascii_letters s"
  shows "str_upper U (str_upper U s) = str_upper U s"
proof -
  have "str_upper U (str_upper U s)
          = map (\<lambda>c. if ascii_islower c then c - 32 else c) (str_upper U s)"
    by (rule str_upper_letters [OF ascii_letters_upper [OF assms]])
  also have "\<dots> = str_upper U s"
    using assms
    by (auto simp: str_upper_letters ascii_letters_def list_all_iff ascii_isupper_def
        ascii_islower_def)
  finally show ?thesis .
qed

lemma str_upper_lower:
  assumes "ascii_letters s"
  shows "str_upper U (str_lower U s) = str_upper U s"
proof -
  have "str_upper U (str_lower U s)
          = map (\<lambda>c. if ascii_islower c then c - 32 else c) (str_lower U s)"
    by (rule str_upper_letters [OF ascii_letters_lower [OF assms]])
  also have "\<dots> = str_upper U s"
    using assms
    by (auto simp: str_upper_letters str_lower_letters ascii_letters_def list_all_iff
        ascii_isupper_def ascii_islower_def)
  finally show ?thesis .
qed

lemma ascii_letters_isalpha:
  assumes "ascii_letters s" and "s \<noteq> []"
  shows "str_isalpha U s"
  using assms
  by (auto simp: str_isalpha_def ascii_letters_def list_all_iff char_isalpha_def
      ascii_isupper_def ascii_islower_def)

lemma length_folded:
  assumes "ascii_letters s"
  shows "length (str_upper U s) = length s" and "length (str_lower U s) = length s"
  using assms by (simp_all add: str_upper_letters str_lower_letters)

text \<open>What the validators do with a string of six ASCII letters.\<close>

lemma validate_letters:
  assumes "ascii_letters s" and "length s = 6"
  shows "validate U (PyStr s) = validate_upper U (str_upper U s)"
    and "validate_detailed U (PyStr s) = validate_detailed_upper U (str_upper U s) prepared"
proof -
  from assms(2) have ne: "s \<noteq> []" by auto
  with assms ascii_letters_isalpha [OF assms(1) ne, of U]
  show "validate U (PyStr s) = validate_upper U (str_upper U s)"
    and "validate_detailed U (PyStr s) = validate_detailed_upper U (str_upper U s) prepared"
    by (simp_all add: validate_def validate_detailed_def prepare_loop)
qed

lemma validate_case_folded:
  assumes "ascii_letters s" and "length s = 6"
  shows "validate U (PyStr (str_upper U s)) = validate U (PyStr s)"
    and "validate U (PyStr (str_lower U s)) = validate U (PyStr s)"
    and "validate_detailed U (PyStr (str_upper U s)) = validate_detailed U (PyStr s)"
    and "validate_detailed U (PyStr (str_lower U s)) = validate_detailed U (PyStr s)"
proof -
  note up = ascii_letters_upper [OF assms(1), of U] and lo = ascii_letters_lower [OF assms(1), of U]
  note len = length_folded [OF assms(1), of U]
  from len assms(2) have lu: "length (str_upper U s) = 6" and ll: "length (str_lower U s) = 6"
    by simp_all
  show "validate U (PyStr (str_upper U s)) = validate U (PyStr s)"
    by (simp add: validate_letters(1) [OF up lu] validate_letters(1) [OF assms]
        str_upper_upper [OF assms(1)])
  show "validate U (PyStr (str_lower U s)) = validate U (PyStr s)"
    by (simp add: validate_letters(1) [OF lo ll] validate_letters(1) [OF assms]
        str_upper_lower [OF assms(1)])
  show "validate_detailed U (PyStr (str_upper U s)) = validate_detailed U (PyStr s)"
    by (simp add: validate_letters(2) [OF up lu] validate_letters(2) [OF assms]
        str_upper_upper [OF assms(1)])
  show "validate_detailed U (PyStr (str_lower U s)) = validate_detailed U (PyStr s)"
    by (simp add: validate_letters(2) [OF lo ll] validate_letters(2) [OF assms]
        str_upper_lower [OF assms(1)])
qed

lemma esvnfb_mixed_case:
  "ascii_letters (lit ''eSvNfB'')" "length (lit ''eSvNfB'') = 6"
  "str_upper ascii_only (lit ''eSvNfB'') = lit ''ESVNFB''"
  "str_lower ascii_only (lit ''eSvNfB'') = lit ''esvnfb''"
  by (simp_all add: ascii_letters_def lit_def ascii_isupper_def ascii_islower_def
      str_upper_def str_lower_def char_upper_def)


section \<open>The attribute checks of a pair with an entry in \<open>ATTRIBUTES\<close>\<close>

text \<open>
  For such a pair every position has options, so the check of a position is the strict
  membership test: the branch for a position without options is never taken.
\<close>

lemma attribute_step_strict:
  assumes "dict_has ATTRIBUTES cg" and "2 \<le> pos" and "pos \<le> 5"
  shows "attribute_step U code cg pos s =
           bindE (str_get code pos) (\<lambda>char.
           bindE (dict_item ATTRIBUTES cg) (\<lambda>rules.
           bindE (dict_item rules (pos + 1)) (\<lambda>options.
             if char \<notin> set (dict_keys options) then
               Inr (Return (False, msg_attribute char (pos + 1) cg (dict_keys options)))
             else Inr (Next ()))))"
proof -
  from assms(1) obtain rules where rules: "map_of ATTRIBUTES cg = Some rules"
    by (auto simp: dict_has_Some)
  from attributes_complete [OF rules, of "pos + 1"] assms(2,3)
  obtain opts where opts: "map_of rules (pos + 1) = Some opts" by auto
  then have has: "dict_has rules (pos + 1)" by (simp add: dict_has_def)
  show ?thesis
    by (cases "str_get code pos")
      (simp_all add: attribute_step_def Let_def dict_item_Some [OF rules] has)
qed

lemma attribute_step_detailed_strict:
  assumes "dict_has ATTRIBUTES cg" and "2 \<le> pos" and "pos \<le> 5"
  shows "attribute_step_detailed U code cg pos p =
           bindE (str_get code pos) (\<lambda>char.
           bindE (set_entry p (pos + 1) (\<lambda>entry. entry\<lparr>val := Some char\<rparr>)) (\<lambda>q.
           bindE (dict_item ATTRIBUTES cg) (\<lambda>rules.
           bindE (dict_item rules (pos + 1)) (\<lambda>options.
             if char \<in> set (dict_keys options) then
               bindE (dict_item options char) (\<lambda>m. accept q (pos + 1) m)
             else
               reject q (pos + 1)
                 (msg_attribute char (pos + 1) cg (dict_keys options))))))"
proof -
  from assms(1) obtain rules where rules: "map_of ATTRIBUTES cg = Some rules"
    by (auto simp: dict_has_Some)
  from attributes_complete [OF rules, of "pos + 1"] assms(2,3)
  obtain opts where opts: "map_of rules (pos + 1) = Some opts" by auto
  then have has: "dict_has rules (pos + 1)" by (simp add: dict_has_def)
  show ?thesis
  proof (cases "str_get code pos")
    case (Inl e)
    then show ?thesis by (simp add: attribute_step_detailed_def)
  next
    case (Inr ch)
    show ?thesis
      by (cases "set_entry p (pos + 1) (\<lambda>entry. entry\<lparr>val := Some ch\<rparr>)")
        (simp_all add: attribute_step_detailed_def Let_def Inr dict_item_Some [OF rules] has)
  qed
qed

lemma attribute_step_Return:
  assumes "dict_has ATTRIBUTES cg" and "2 \<le> pos" and "pos \<le> 5"
    and "attribute_step U code cg pos s = Inr (Return r)"
  shows "\<exists>ch ks. r = (False, msg_attribute [ch] (pos + 1) cg ks) \<and> ch \<noteq> 88"
proof -
  from assms(1) obtain rules where rules: "map_of ATTRIBUTES cg = Some rules"
    by (auto simp: dict_has_Some)
  from attributes_complete [OF rules, of "pos + 1"] assms(2,3)
  obtain opts where opts: "map_of rules (pos + 1) = Some opts"
    and x: "dict_has opts (lit ''X'')" by auto
  from assms(4) obtain char where char: "str_get code pos = Inr char"
    by (cases "str_get code pos") (simp_all add: attribute_step_strict [OF assms(1-3)])
  from str_get_single [OF char] obtain ch where ch: "char = [ch]" by blast
  from assms(4) char have out: "char \<notin> set (dict_keys opts)"
    and r: "r = (False, msg_attribute char (pos + 1) cg (dict_keys opts))"
    by (auto simp: attribute_step_strict [OF assms(1-3)] dict_item_Some [OF rules]
        dict_item_Some [OF opts] split: if_splits)
  from x out have "char \<noteq> lit ''X''" by (auto simp: dict_has_keys)
  with ch have "ch \<noteq> 88" by (simp add: lit_def)
  with r ch show ?thesis by blast
qed

lemma alphabetic_step_Return:
  assumes "alphabetic_step U code i s = Inr (Return r)"
  shows "r = (False, msg_position_alpha (i + 1))"
  using assms
  by (cases "str_get code i") (auto simp: alphabetic_step_def Let_def split: if_splits)

lemma for_loop_Return:
  assumes "for_loop body xs s = Inr (Return r)"
  shows "\<exists>x \<in> set xs. \<exists>s'. body x s' = Inr (Return r)"
  using assms
proof (induction xs arbitrary: s)
  case Nil
  then show ?case by simp
next
  case (Cons x xs)
  show ?case
  proof (cases "body x s")
    case (Inl e)
    with Cons.prems show ?thesis by simp
  next
    case (Inr f)
    show ?thesis
    proof (cases f)
      case (Return r')
      with Inr Cons.prems have "body x s = Inr (Return r)" by simp
      then show ?thesis by auto
    next
      case (Next s')
      with Inr Cons.prems have "for_loop body xs s' = Inr (Return r)" by simp
      from Cons.IH [OF this] show ?thesis by auto
    qed
  qed
qed

lemma valid_result_True:
  assumes "valid_result c g = Inr (b, m)"
  shows "b"
  using assms
  by (auto simp: valid_result_def bindE_def split: sum.splits)

lemma pair_is_prefix:
  assumes "str_get t 0 = Inr c" and "str_get t 1 = Inr g"
  shows "c @ g = str_slice02 t"
proof -
  from assms(2) have "2 \<le> length t" by (auto simp: str_get_def split: if_splits)
  then obtain a b rest where t: "t = a # b # rest"
    by (cases t; cases "tl t") auto
  with assms show ?thesis by (auto simp: str_get_def str_slice02_def)
qed

text \<open>The failures that the compact validator can return once the string is upper-cased.\<close>

lemma validate_upper_failure:
  assumes "validate_upper U t = Inr (False, m)"
  shows "(\<exists>c. m = msg_category c)
       \<or> (\<exists>g c ks. m = msg_group g c ks)
       \<or> (dict_has ATTRIBUTES (str_slice02 t)
           \<and> (\<exists>ch k ks. m = msg_attribute [ch] k (str_slice02 t) ks \<and> ch \<noteq> 88))
       \<or> (\<not> dict_has ATTRIBUTES (str_slice02 t) \<and> (\<exists>k. m = msg_position_alpha k))"
proof (cases "str_get t 0")
  case (Inl e)
  with assms show ?thesis by (simp add: validate_upper_def)
next
  case c: (Inr c)
  show ?thesis
  proof (cases "dict_has CATEGORIES c")
    case False
    with assms c have "m = msg_category c" by (simp add: validate_upper_def)
    then show ?thesis by blast
  next
    case cat: True
    show ?thesis
    proof (cases "str_get t 1")
      case (Inl e)
      with assms c cat show ?thesis by (simp add: validate_upper_def)
    next
      case g: (Inr g)
      show ?thesis
      proof (cases "dict_has (dict_get GROUPS c []) g")
        case False
        with assms c cat g have "\<exists>ks. m = msg_group g c ks"
          by (cases "dict_item GROUPS c") (auto simp: validate_upper_def)
        then show ?thesis by blast
      next
        case grp: True
        note cg = pair_is_prefix [OF c g]
        let ?loop = "if dict_has ATTRIBUTES (c @ g)
                     then for_loop (attribute_step U t (c @ g)) (py_range 2 6) ()
                     else for_loop (alphabetic_step U t) (py_range 2 6) ()"
        from assms c cat g grp
        have run: "bindE ?loop (\<lambda>r. case r of Return res \<Rightarrow> Inr res
                                      | Next u \<Rightarrow> valid_result c g) = Inr (False, m)"
          by (simp add: validate_upper_def Let_def)
        then obtain f where f: "?loop = Inr f" by (cases ?loop) simp_all
        have ret: "f = Return (False, m)"
        proof (cases f)
          case (Return res)
          with run f show ?thesis by simp
        next
          case (Next u)
          with run f have "valid_result c g = Inr (False, m)" by simp
          from valid_result_True [OF this] show ?thesis by simp
        qed
        show ?thesis
        proof (cases "dict_has ATTRIBUTES (c @ g)")
          case True
          with f ret
          have "for_loop (attribute_step U t (c @ g)) (py_range 2 6) () = Inr (Return (False, m))"
            by simp
          from for_loop_Return [OF this] obtain x s'
            where x: "2 \<le> x" "x \<le> 5"
              and step: "attribute_step U t (c @ g) x s' = Inr (Return (False, m))"
            by (auto simp: set_py_range)
          from attribute_step_Return [OF True x step] obtain ch ks
            where "m = msg_attribute [ch] (x + 1) (c @ g) ks" and "ch \<noteq> 88" by auto
          then have "\<exists>ch k ks. m = msg_attribute [ch] k (c @ g) ks \<and> ch \<noteq> 88" by blast
          with True have "dict_has ATTRIBUTES (str_slice02 t)
              \<and> (\<exists>ch k ks. m = msg_attribute [ch] k (str_slice02 t) ks \<and> ch \<noteq> 88)"
            by (simp add: cg)
          then show ?thesis by blast
        next
          case False
          with f ret
          have "for_loop (alphabetic_step U t) (py_range 2 6) () = Inr (Return (False, m))"
            by simp
          from for_loop_Return [OF this] obtain x s'
            where "alphabetic_step U t x s' = Inr (Return (False, m))" by blast
          from alphabetic_step_Return [OF this] have "\<exists>k. m = msg_position_alpha k" by blast
          with False have "\<not> dict_has ATTRIBUTES (str_slice02 t)
              \<and> (\<exists>k. m = msg_position_alpha k)"
            by (simp add: cg)
          then show ?thesis by blast
        qed
      qed
    qed
  qed
qed

text \<open>The failures that the compact validator can return.\<close>

lemma validate_failure:
  assumes "validate U v = Inr (False, m)"
  shows "m = msg_not_string \<or> m = msg_length \<or> m = msg_not_alpha
       \<or> (\<exists>s. v = PyStr s \<and> validate_upper U (str_upper U s) = Inr (False, m))"
  using assms
  by (cases v) (auto simp: validate_def bindE_def split: if_splits sum.splits)

text \<open>The messages of the different failures differ.\<close>

lemma msg_attribute_other:
  "msg_attribute ch k cg ks \<noteq> msg_not_string"
  "msg_attribute ch k cg ks \<noteq> msg_length"
  "msg_attribute ch k cg ks \<noteq> msg_not_alpha"
  "msg_attribute ch k cg ks \<noteq> msg_category c"
  "msg_attribute ch k cg ks \<noteq> msg_group g c ks'"
  "msg_attribute ch k cg ks \<noteq> msg_position_alpha k'"
  by (simp_all add: msg_attribute_def msg_not_string_def msg_length_def msg_not_alpha_def
      msg_category_def msg_group_def msg_position_alpha_def lit_def apostrophe_def)

lemma msg_position_alpha_other:
  "msg_position_alpha k \<noteq> msg_not_string"
  "msg_position_alpha k \<noteq> msg_length"
  "msg_position_alpha k \<noteq> msg_not_alpha"
  "msg_position_alpha k \<noteq> msg_category c"
  "msg_position_alpha k \<noteq> msg_group g c ks'"
  by (simp_all add: msg_not_string_def msg_length_def msg_not_alpha_def
      msg_category_def msg_group_def msg_position_alpha_def lit_def apostrophe_def)

lemma msg_attribute_char:
  assumes "msg_attribute [ch] k cg ks = msg_attribute [ch'] k' cg' ks'"
  shows "ch = ch'"
  using assms by (simp add: msg_attribute_def lit_def apostrophe_def)

lemma never_attribute_x: "validate U v \<noteq> Inr (False, msg_attribute (lit ''X'') k cg ks)"
proof
  assume a: "validate U v = Inr (False, msg_attribute (lit ''X'') k cg ks)"
  let ?m = "msg_attribute (lit ''X'') k cg ks"
  from validate_failure [OF a] obtain s
    where "validate_upper U (str_upper U s) = Inr (False, ?m)"
    by (auto simp: msg_attribute_other)
  from validate_upper_failure [OF this] obtain ch k' cg' ks'
    where "?m = msg_attribute [ch] k' cg' ks'" and "ch \<noteq> 88"
    by (auto simp: msg_attribute_other msg_attribute_other [symmetric])
  then show False using msg_attribute_char [of 88 k cg ks ch k' cg' ks'] by (simp add: lit_def)
qed

lemma never_alpha_in_defined_pair:
  assumes "dict_has ATTRIBUTES (str_slice02 (str_upper U s))"
  shows "validate U (PyStr s) \<noteq> Inr (False, msg_position_alpha k)"
proof
  assume a: "validate U (PyStr s) = Inr (False, msg_position_alpha k)"
  from validate_failure [OF a]
  have "validate_upper U (str_upper U s) = Inr (False, msg_position_alpha k)"
    by (auto simp: msg_position_alpha_other)
  from validate_upper_failure [OF this] assms show False
    by (auto simp: msg_position_alpha_other msg_attribute_other [symmetric])
qed

section \<open>Inputs of the wrong length\<close>

lemma msg_not_string_neq_length: "msg_not_string \<noteq> msg_length"
  by (simp add: msg_not_string_def msg_length_def lit_def)

text \<open>
  Claim C2, as amended. For every non-empty string whose length is not 6, the compact
  \<open>validate\<close> returns \<open>False\<close> with the message
  \<open>CFI code must be exactly 6 characters\<close>, whatever the string contains, and the detailed
  \<open>validate\<close> returns the same with every position unresolved. (The empty string is
  caught by the check before, see the counterexample.)
\<close>

theorem validate_wrong_length:
  assumes "s \<noteq> []" and "length s \<noteq> 6"
  shows "validate U (PyStr s) = Inr (False, msg_length)
       \<and> validate_detailed U (PyStr s) = Inr (False, msg_length, prepared)"
  using assms by (simp add: validate_def validate_detailed_def prepare_loop)

theorem validate_wrong_length_witness:
  "lit ''ESVNF'' \<noteq> [] \<and> length (lit ''ESVNF'') \<noteq> 6
   \<and> validate ascii_only (PyStr (lit ''ESVNF'')) = Inr (False, msg_length)
   \<and> validate_detailed ascii_only (PyStr (lit ''ESVNF'')) = Inr (False, msg_length, prepared)"
  using validate_wrong_length [of "lit ''ESVNF''" ascii_only] by (simp add: lit_def)

text \<open>
  Claim C2 as stated fails at the empty string: its length is not 6, and \<open>validate\<close>
  answers \<open>CFI code must be a string\<close>, because \<open>not cfi_code\<close> holds for it.
\<close>

theorem validate_empty_string_counterexample:
  "length ([] :: pystr) \<noteq> 6
   \<and> validate ascii_only (PyStr []) = Inr (False, msg_not_string)
   \<and> validate ascii_only (PyStr []) \<noteq> Inr (False, msg_length)"
  by (simp add: validate_def msg_not_string_neq_length)

section \<open>The decomposition of the detailed validator\<close>

text \<open>
  Claim C4. For every input the decomposition that the detailed \<open>validate\<close> returns is
  the one that the input calls for (\<open>decomposition_ok\<close>). If the input fails a check on the
  whole string, the result is invalid with that check's message and no position is looked
  at. Otherwise the result is valid exactly when every position of the upper-cased code is
  legal, and then all six positions have \<open>valid = True\<close>, a value and a meaning. When
  \<open>k\<close> is the first position, from left to right, that is not legal, the result is
  invalid with the message of the failure at \<open>k\<close> (unknown category for 1, unknown group
  for 2, invalid attribute or non-alphabetic character for 3 to 6); position \<open>k\<close>, and no
  other, carries that message with \<open>valid = False\<close>; every position before \<open>k\<close> has
  \<open>valid = True\<close>; every position after \<open>k\<close> has value, meaning and valid unset; and
  the positions up to \<open>k\<close> record the characters of the code. (An argument whose truth
  test raises has no result and no decomposition.)
\<close>

theorem decomposition_invariant:
  assumes "unicode_ok U"
  shows "case truthy v of
           Inl e \<Rightarrow> validate_detailed U v = Inl e
         | Inr b \<Rightarrow> (\<exists>r. validate_detailed U v = Inr r \<and> decomposition_ok U v r)"
proof (rule truthy_cases [of v])
  fix e
  assume "truthy v = Inl e"
  with validate_raises(2) [OF this, of U] show ?thesis by simp
next
  fix b
  assume "truthy v = Inr b"
  with validate_detailed_total [OF assms this] show ?thesis by simp
qed

theorem decomposition_invariant_witness:
  "unicode_ok ascii_only
   \<and> truthy (PyStr (lit ''ESAXXX'')) = Inr True
   \<and> normalized ascii_only (PyStr (lit ''ESAXXX'')) = Some (lit ''ESAXXX'')
   \<and> first_offending ascii_only (lit ''ESAXXX'') = Some 3
   \<and> (\<exists>p. validate_detailed ascii_only (PyStr (lit ''ESAXXX''))
             = Inr (False, expected_message (lit ''ESAXXX'') 3, p)
          \<and> fails_at p (expected_message (lit ''ESAXXX'') 3) 3
          \<and> values_recorded (lit ''ESAXXX'') 3 p)"
proof -
  have ok: "unicode_ok ascii_only" by (simp add: unicode_ok_def ascii_only_def)
  have tr: "truthy (PyStr (lit ''ESAXXX'')) = Inr True" by (simp add: lit_def)
  have n: "normalized ascii_only (PyStr (lit ''ESAXXX'')) = Some (lit ''ESAXXX'')"
    by (simp add: normalized_def string_defs)
  have f: "first_offending ascii_only (lit ''ESAXXX'') = Some 3"
    by (simp add: first_offending_def py_range_1_7 position_ok_def char_at_def table_defs
        string_defs dict_defs)
  from decomposition_invariant [OF ok, of "PyStr (lit ''ESAXXX'')"] tr
  have "\<exists>r. validate_detailed ascii_only (PyStr (lit ''ESAXXX'')) = Inr r
            \<and> decomposition_ok ascii_only (PyStr (lit ''ESAXXX'')) r"
    by simp
  then have "\<exists>p. validate_detailed ascii_only (PyStr (lit ''ESAXXX''))
             = Inr (False, expected_message (lit ''ESAXXX'') 3, p)
          \<and> fails_at p (expected_message (lit ''ESAXXX'') 3) 3
          \<and> values_recorded (lit ''ESAXXX'') 3 p"
    by (auto simp: decomposition_ok_def n f)
  with ok tr n f show ?thesis by blast
qed

section \<open>The two validators agree\<close>

text \<open>
  Claim C5. For every input, what the compact \<open>validate\<close> of \<open>cfi_validator.py\<close> returns is
  the first two components of what the detailed \<open>validate\<close> of \<open>cfi_validator_test.py\<close>
  returns.
\<close>

theorem compact_agrees_with_detailed:
  "validate U v = compact_of (validate_detailed U v)"
  by (rule validate_compact_of)

theorem compact_agrees_with_detailed_witness:
  "truthy (PyStr (lit ''ESAXXX'')) = Inr True \<and> isinstance_str (PyStr (lit ''ESAXXX''))
   \<and> validate ascii_only (PyStr (lit ''ESAXXX''))
       = compact_of (validate_detailed ascii_only (PyStr (lit ''ESAXXX'')))"
  using compact_agrees_with_detailed [of ascii_only "PyStr (lit ''ESAXXX'')"]
  by (simp add: lit_def)

section \<open>Totality\<close>




section \<open>The scenario \<open>ESVNFB\<close>\<close>

text \<open>
  Claim C6. \<open>validate("ESVNFB")\<close> is valid; the message names the category description
  \<open>Equities\<close> and the group description \<open>Shares\<close>; the detailed decomposition gives
  position 3 the meaning \<open>Voting\<close>, position 4 \<open>Free\<close>, position 5 \<open>Fully paid\<close> and
  position 6 \<open>Bearer\<close>.
\<close>

theorem esvnfb_valid:
  "validate U (PyStr (lit ''ESVNFB'')) = Inr (True, lit ''Valid CFI code for Equities - Shares'')
   \<and> validate_detailed U (PyStr (lit ''ESVNFB'')) =
     Inr (True, lit ''Valid CFI code for Equities - Shares'',
       [(1, \<lparr>description = lit ''Category - Primary classification of the financial instrument'',
             val = Some (lit ''E''), meaning = Some (lit ''Equities''),
             valid = Some True, error = None\<rparr>),
        (2, \<lparr>description = lit ''Group - Secondary classification within the category'',
             val = Some (lit ''S''), meaning = Some (lit ''Shares''),
             valid = Some True, error = None\<rparr>),
        (3, \<lparr>description = lit ''Attribute 1 - Specific characteristics related to the instrument type'',
             val = Some (lit ''V''), meaning = Some (lit ''Voting''),
             valid = Some True, error = None\<rparr>),
        (4, \<lparr>description = lit ''Attribute 2 - Additional characteristics/features'',
             val = Some (lit ''N''), meaning = Some (lit ''Free''),
             valid = Some True, error = None\<rparr>),
        (5, \<lparr>description = lit ''Attribute 3 - Further specification of the instrument'',
             val = Some (lit ''F''), meaning = Some (lit ''Fully paid''),
             valid = Some True, error = None\<rparr>),
        (6, \<lparr>description = lit ''Attribute 4 - Final specification details'',
             val = Some (lit ''B''), meaning = Some (lit ''Bearer''),
             valid = Some True, error = None\<rparr>)])"
  (is "_ \<and> ?detailed")
proof -
  have d: ?detailed
    by (simp add: validate_detailed_def prepare_loop prepared_def POSITION_DESCRIPTIONS_def
        validate_detailed_upper_def check_category_def check_group_def
        attribute_step_detailed_def accept_def set_entry_def valid_result_detailed_def
        msg_valid_def py_range_2_6 table_defs string_defs dict_defs)
  then show ?thesis by (simp add: validate_compact_of compact_of_def)
qed

theorem esvnfb_valid_witness:
  "truthy (PyStr (lit ''ESVNFB'')) = Inr True \<and> isinstance_str (PyStr (lit ''ESVNFB''))
   \<and> validate ascii_only (PyStr (lit ''ESVNFB''))
       = Inr (True, lit ''Valid CFI code for Equities - Shares'')
   \<and> (\<exists>p. validate_detailed ascii_only (PyStr (lit ''ESVNFB''))
             = Inr (True, lit ''Valid CFI code for Equities - Shares'', p)
          \<and> map_option meaning (map_of p 3) = Some (Some (lit ''Voting''))
          \<and> map_option meaning (map_of p 4) = Some (Some (lit ''Free''))
          \<and> map_option meaning (map_of p 5) = Some (Some (lit ''Fully paid''))
          \<and> map_option meaning (map_of p 6) = Some (Some (lit ''Bearer'')))"
  using esvnfb_valid [of ascii_only] by (simp add: lit_def)

section \<open>Looking up the groups of a category\<close>

text \<open>
  Claim C7, as amended. \<open>get_position_options(category, group, 2)\<close> returns the empty
  dictionary when the category is not a key of \<open>CATEGORIES\<close> (or is \<open>None\<close>); it has no
  failure value.
\<close>

theorem groups_of_unknown_category:
  assumes "\<not> opt_in category CATEGORIES"
  shows "get_position_options category g 2 = Inr []"
  using assms by (rule get_position_options_unknown)

theorem groups_of_unknown_category_witness:
  "\<not> opt_in None CATEGORIES \<and> get_position_options None (Some (lit ''S'')) 2 = Inr []"
proof -
  have h: "\<not> opt_in None CATEGORIES" by (simp add: opt_in_def)
  from groups_of_unknown_category [OF h] h show ?thesis by simp
qed

text \<open>
  Claim C7 as stated fails: \<open>Z\<close> is not a category, and the lookup of its groups returns
  an empty dictionary, which is a value like the one of a category without groups.
\<close>

theorem groups_of_z_counterexample:
  "\<not> dict_has CATEGORIES (lit ''Z'')
   \<and> get_position_options (Some (lit ''Z'')) None 2 = Inr []"
  by (simp add: get_position_options_def opt_in_def z_not_category)

section \<open>Displaying a code that is not valid\<close>

text \<open>
  Claim C9, as amended. \<open>display_cfi_details\<close> of \<open>cfi_validator_test.py\<close> validates its
  argument again and, when the code is not valid, prints the line \<open>Invalid CFI code\<close> with
  the validator's message and nothing else: no position is rendered.
  (\<open>display_cfi_details\<close> of \<open>cfi_validator.py\<close> does not validate: it expects the validated
  code that \<open>main\<close> passes to it.)
\<close>

theorem display_rejects_invalid:
  assumes "validate U c = Inr (False, m)"
  shows "display_cfi_details_detailed U c
           = ([[10] @ cross_mark @ lit '' Invalid CFI code: '' @ m], None)"
  using assms by (rule display_invalid)

theorem display_rejects_invalid_witness:
  "validate ascii_only (PyStr (lit ''ESVNF'')) = Inr (False, msg_length)
   \<and> display_cfi_details_detailed ascii_only (PyStr (lit ''ESVNF''))
       = ([[10] @ cross_mark @ lit '' Invalid CFI code: '' @ msg_length], None)"
proof -
  have h: "validate ascii_only (PyStr (lit ''ESVNF'')) = Inr (False, msg_length)"
    by (simp add: validate_def lit_def)
  from display_rejects_invalid [OF h] h show ?thesis by simp
qed

text \<open>
  Claim C9 as stated fails for \<open>display_cfi_details\<close> of \<open>cfi_validator.py\<close>: \<open>ZZZZZZ\<close> is
  not valid (\<open>Z\<close> is not a category), and the helper renders all six positions, with
  \<open>Unknown\<close> for the category and the group.
\<close>

theorem display_zzzzzz_counterexample:
  "validate ascii_only (PyStr (lit ''ZZZZZZ'')) = Inr (False, msg_category (lit ''Z''))
   \<and> display_cfi_details ascii_only (lit ''ZZZZZZ'') =
     ([[10] @ lit ''CFI Code: ZZZZZZ'', lit ''======================'',
       lit ''Category (1st): Z - Unknown'', lit ''Group (2nd): Z - Unknown'',
       lit ''Attribute 3: Z'', lit ''Attribute 4: Z'', lit ''Attribute 5: Z'',
       lit ''Attribute 6: Z''], None)"
  by (simp add: zzzzzz_compact zzzzzz_display)

section \<open>Case-insensitivity\<close>

text \<open>
  Claim C3. For every string of six ASCII letters, the validators return the same for the
  string, for its upper-cased form and for its lower-cased form. The argument itself is
  never changed: a Python string is immutable, \<open>cfi_code.upper()\<close> builds a new string
  (\<open>str_upper\<close>) that is bound to the local name only, and the model's validators are
  functions of their argument.
\<close>

theorem validate_case_insensitive:
  assumes "ascii_letters s" and "length s = 6"
  shows "validate U (PyStr (str_upper U s)) = validate U (PyStr s)
       \<and> validate U (PyStr (str_lower U s)) = validate U (PyStr s)
       \<and> validate_detailed U (PyStr (str_upper U s)) = validate_detailed U (PyStr s)
       \<and> validate_detailed U (PyStr (str_lower U s)) = validate_detailed U (PyStr s)"
  using validate_case_folded [OF assms] by simp

theorem validate_case_insensitive_witness:
  "ascii_letters (lit ''eSvNfB'') \<and> length (lit ''eSvNfB'') = 6
   \<and> validate ascii_only (PyStr (lit ''ESVNFB'')) = validate ascii_only (PyStr (lit ''eSvNfB''))
   \<and> validate ascii_only (PyStr (lit ''esvnfb'')) = validate ascii_only (PyStr (lit ''eSvNfB''))"
  using validate_case_insensitive [OF esvnfb_mixed_case(1,2), of ascii_only]
  by (simp add: esvnfb_mixed_case)

section \<open>\<open>X\<close> is legal wherever options are defined\<close>

text \<open>
  Claim C1. In every entry of \<open>ATTRIBUTES\<close> the options of every position from 3 to 6
  contain \<open>X\<close>; hence \<open>validate\<close> never returns the invalid-attribute failure for the
  character \<open>X\<close>, at whatever position and for whatever pair.
\<close>

theorem x_never_invalid:
  "(\<forall>cg rules p opts.
      map_of ATTRIBUTES cg = Some rules \<and> p \<in> set (py_range 3 7) \<and> map_of rules p = Some opts
        \<longrightarrow> dict_has opts (lit ''X''))
   \<and> (\<forall>k cg ks. validate U v \<noteq> Inr (False, msg_attribute (lit ''X'') k cg ks))"
proof (intro conjI allI impI)
  fix cg rules p opts
  assume a: "map_of ATTRIBUTES cg = Some rules \<and> p \<in> set (py_range 3 7)
               \<and> map_of rules p = Some opts"
  then have "3 \<le> p" and "p \<le> 6" by (auto simp: set_py_range)
  from attributes_complete [OF _ this, of cg rules] a show "dict_has opts (lit ''X'')" by auto
next
  fix k cg ks
  show "validate U v \<noteq> Inr (False, msg_attribute (lit ''X'') k cg ks)"
    by (rule never_attribute_x)
qed

theorem x_never_invalid_witness:
  "map_of ATTRIBUTES (lit ''OC'') = Some ATTRIBUTES_OC \<and> 6 \<in> set (py_range 3 7)
   \<and> map_of ATTRIBUTES_OC 6 = Some [(lit ''X'', lit ''Not applicable/Not specified'')]
   \<and> dict_has [(lit ''X'', lit ''Not applicable/Not specified'')] (lit ''X'')
   \<and> validate ascii_only (PyStr (lit ''OCXXXX''))
       \<noteq> Inr (False, msg_attribute (lit ''X'') 6 (lit ''OC'') [lit ''X''])"
proof -
  have h1: "map_of ATTRIBUTES (lit ''OC'') = Some ATTRIBUTES_OC"
    by (simp add: ATTRIBUTES_def lit_def)
  have h2: "6 \<in> set (py_range 3 7)" by (simp add: py_range_3_7)
  have h3: "map_of ATTRIBUTES_OC 6 = Some [(lit ''X'', lit ''Not applicable/Not specified'')]"
    by (simp add: ATTRIBUTES_OC_def)
  note t = x_never_invalid [of ascii_only "PyStr (lit ''OCXXXX'')"]
  from t [THEN conjunct1, rule_format, of "lit ''OC''" ATTRIBUTES_OC 6] h1 h2 h3
  have a: "dict_has [(lit ''X'', lit ''Not applicable/Not specified'')] (lit ''X'')" by simp
  from t [THEN conjunct2, rule_format, of 6 "lit ''OC''" "[lit ''X'']"]
  have b: "validate ascii_only (PyStr (lit ''OCXXXX''))
             \<noteq> Inr (False, msg_attribute (lit ''X'') 6 (lit ''OC'') [lit ''X''])" .
  from h1 h2 h3 a b show ?thesis by blast
qed

section \<open>Every entry of \<open>ATTRIBUTES\<close> defines all four positions\<close>

text \<open>
  Claim C10. Every entry of \<open>ATTRIBUTES\<close> has a non-empty set of options for each of the
  positions 3, 4, 5 and 6. Consequently the branch for a position without options, inside
  a pair that has an entry, is never taken: in both validators the check of such a
  position is the membership test alone, and for a pair that has an entry \<open>validate\<close>
  never returns the message of that branch.
\<close>

theorem defined_pairs_complete:
  "(\<forall>cg rules. map_of ATTRIBUTES cg = Some rules \<longrightarrow>
      (\<forall>p \<in> set (py_range 3 7). \<exists>opts. map_of rules p = Some opts \<and> opts \<noteq> []))
   \<and> (\<forall>code cg pos. dict_has ATTRIBUTES cg \<and> pos \<in> set (py_range 2 6) \<longrightarrow>
        attribute_step U code cg pos () =
          bindE (str_get code pos) (\<lambda>char.
          bindE (dict_item ATTRIBUTES cg) (\<lambda>rules.
          bindE (dict_item rules (pos + 1)) (\<lambda>options.
            if char \<notin> set (dict_keys options) then
              Inr (Return (False, msg_attribute char (pos + 1) cg (dict_keys options)))
            else Inr (Next ())))))
   \<and> (\<forall>code cg pos p. dict_has ATTRIBUTES cg \<and> pos \<in> set (py_range 2 6) \<longrightarrow>
        attribute_step_detailed U code cg pos p =
          bindE (str_get code pos) (\<lambda>char.
          bindE (set_entry p (pos + 1) (\<lambda>entry. entry\<lparr>val := Some char\<rparr>)) (\<lambda>q.
          bindE (dict_item ATTRIBUTES cg) (\<lambda>rules.
          bindE (dict_item rules (pos + 1)) (\<lambda>options.
            if char \<in> set (dict_keys options) then
              bindE (dict_item options char) (\<lambda>m. accept q (pos + 1) m)
            else
              reject q (pos + 1)
                (msg_attribute char (pos + 1) cg (dict_keys options)))))))
   \<and> (\<forall>s k. dict_has ATTRIBUTES (str_slice02 (str_upper U s)) \<longrightarrow>
        validate U (PyStr s) \<noteq> Inr (False, msg_position_alpha k))"
proof (intro conjI allI impI ballI)
  fix cg rules p
  assume "map_of ATTRIBUTES cg = Some rules" and "p \<in> set (py_range 3 7)"
  then show "\<exists>opts. map_of rules p = Some opts \<and> opts \<noteq> []"
    using attributes_complete [of cg rules p] by (auto simp: set_py_range)
next
  fix code cg pos
  assume "dict_has ATTRIBUTES cg \<and> pos \<in> set (py_range 2 6)"
  then have "dict_has ATTRIBUTES cg" "2 \<le> pos" "pos \<le> 5" by (auto simp: set_py_range)
  then show "attribute_step U code cg pos () =
          bindE (str_get code pos) (\<lambda>char.
          bindE (dict_item ATTRIBUTES cg) (\<lambda>rules.
          bindE (dict_item rules (pos + 1)) (\<lambda>options.
            if char \<notin> set (dict_keys options) then
              Inr (Return (False, msg_attribute char (pos + 1) cg (dict_keys options)))
            else Inr (Next ()))))"
    by (rule attribute_step_strict)
next
  fix code cg pos p
  assume "dict_has ATTRIBUTES cg \<and> pos \<in> set (py_range 2 6)"
  then have "dict_has ATTRIBUTES cg" "2 \<le> pos" "pos \<le> 5" by (auto simp: set_py_range)
  then show "attribute_step_detailed U code cg pos p =
          bindE (str_get code pos) (\<lambda>char.
          bindE (set_entry p (pos + 1) (\<lambda>entry. entry\<lparr>val := Some char\<rparr>)) (\<lambda>q.
          bindE (dict_item ATTRIBUTES cg) (\<lambda>rules.
          bindE (dict_item rules (pos + 1)) (\<lambda>options.
            if char \<in> set (dict_keys options) then
              bindE (dict_item options char) (\<lambda>m. accept q (pos + 1) m)
            else
              reject q (pos + 1)
                (msg_attribute char (pos + 1) cg (dict_keys options))))))"
    by (rule attribute_step_detailed_strict)
next
  fix s k
  assume "dict_has ATTRIBUTES (str_slice02 (str_upper U s))"
  then show "validate U (PyStr s) \<noteq> Inr (False, msg_position_alpha k)"
    by (rule never_alpha_in_defined_pair)
qed

theorem defined_pairs_complete_witness:
  "map_of ATTRIBUTES (lit ''SI'') = Some ATTRIBUTES_SI \<and> 5 \<in> set (py_range 3 7)
   \<and> (\<exists>opts. map_of ATTRIBUTES_SI 5 = Some opts \<and> opts \<noteq> [])
   \<and> dict_has ATTRIBUTES (str_slice02 (str_upper ascii_only (lit ''SIFSAX'')))
   \<and> validate ascii_only (PyStr (lit ''SIFSAX'')) \<noteq> Inr (False, msg_position_alpha 5)"
proof -
  have h1: "map_of ATTRIBUTES (lit ''SI'') = Some ATTRIBUTES_SI"
    by (simp add: ATTRIBUTES_def lit_def)
  have h2: "5 \<in> set (py_range 3 7)" by (simp add: py_range_3_7)
  have h3: "dict_has ATTRIBUTES (str_slice02 (str_upper ascii_only (lit ''SIFSAX'')))"
    by (simp add: ATTRIBUTES_def lit_def dict_has_def str_slice02_def str_upper_def
        char_upper_def ascii_islower_def)
  note t = defined_pairs_complete [of ascii_only]
  from t [THEN conjunct1, rule_format, OF h1 h2]
  have a: "\<exists>opts. map_of ATTRIBUTES_SI 5 = Some opts \<and> opts \<noteq> []" .
  from t [THEN conjunct2, THEN conjunct2, THEN conjunct2, rule_format, OF h3, of 5]
  have b: "validate ascii_only (PyStr (lit ''SIFSAX'')) \<noteq> Inr (False, msg_position_alpha 5)" .
  from h1 h2 h3 a b show ?thesis by blast
qed

end
